theory Spec2Isabelle
  imports Complex_Main "HOL-Library.AList"
begin

section \<open>Python values used by CalibratorApp.py\<close>

text \<open>
  Strings are lists of 8-bit characters. The character classes below are the ASCII part of
  what Python's \<^verbatim>\<open>str.strip\<close>, \<^verbatim>\<open>str.upper\<close>, \<^verbatim>\<open>str.lower\<close> and
  \<^verbatim>\<open>float\<close> use; characters outside ASCII are left alone.

  A Python float is a finite number or one of the three special values. Finite floats are
  modelled by the real number they denote: the rounding and the overflow of binary
  floating-point arithmetic and the sign of zero are not modelled.
\<close>

datatype py_error = ValueError | OverflowError | KeyError

datatype pyfloat = Fin real | PInf | NInf | NaN

fun fneg :: "pyfloat \<Rightarrow> pyfloat" where
  "fneg (Fin x) = Fin (- x)"
| "fneg PInf = NInf"
| "fneg NInf = PInf"
| "fneg NaN = NaN"

fun fadd :: "pyfloat \<Rightarrow> pyfloat \<Rightarrow> pyfloat" where
  "fadd (Fin x) (Fin y) = Fin (x + y)"
| "fadd NaN _ = NaN"
| "fadd _ NaN = NaN"
| "fadd PInf NInf = NaN"
| "fadd NInf PInf = NaN"
| "fadd PInf _ = PInf"
| "fadd NInf _ = NInf"
| "fadd _ PInf = PInf"
| "fadd _ NInf = NInf"

definition fsub :: "pyfloat \<Rightarrow> pyfloat \<Rightarrow> pyfloat" where
  "fsub x y = fadd x (fneg y)"

text \<open>Division of a float by the positive finite constant \<open>100.0\<close>.\<close>

fun fdiv100 :: "pyfloat \<Rightarrow> pyfloat" where
  "fdiv100 (Fin x) = Fin (x / 100)"
| "fdiv100 PInf = PInf"
| "fdiv100 NInf = NInf"
| "fdiv100 NaN = NaN"

subsection \<open>String methods\<close>

definition isspace :: "char \<Rightarrow> bool" where
  "isspace c \<longleftrightarrow> c \<in> set [CHR 0x09, CHR 0x0A, CHR 0x0B, CHR 0x0C, CHR 0x0D,
                          CHR 0x1C, CHR 0x1D, CHR 0x1E, CHR 0x1F, CHR '' '']"

definition strip :: "string \<Rightarrow> string" where
  "strip s = rev (dropWhile isspace (rev (dropWhile isspace s)))"

definition lower_char :: "char \<Rightarrow> char" where
  "lower_char c =
     (case map_of (zip ''ABCDEFGHIJKLMNOPQRSTUVWXYZ'' ''abcdefghijklmnopqrstuvwxyz'') c of
        Some d \<Rightarrow> d | None \<Rightarrow> c)"

definition upper_char :: "char \<Rightarrow> char" where
  "upper_char c =
     (case map_of (zip ''abcdefghijklmnopqrstuvwxyz'' ''ABCDEFGHIJKLMNOPQRSTUVWXYZ'') c of
        Some d \<Rightarrow> d | None \<Rightarrow> c)"

definition lower :: "string \<Rightarrow> string" where
  "lower s = map lower_char s"

definition upper :: "string \<Rightarrow> string" where
  "upper s = map upper_char s"

text \<open>\<^verbatim>\<open>s.split(sep)\<close> for a separator of one character.\<close>

fun split :: "char \<Rightarrow> string \<Rightarrow> string list" where
  "split sep [] = [[]]"
| "split sep (c # cs) =
     (if c = sep then [] # split sep cs
      else (case split sep cs of [] \<Rightarrow> [[c]] | p # ps \<Rightarrow> (c # p) # ps))"

text \<open>Reading a file in text mode turns a carriage return with a line feed, and a carriage
  return alone, into a line feed.\<close>

fun universal_newlines :: "string \<Rightarrow> string" where
  "universal_newlines [] = []"
| "universal_newlines (c # cs) =
     (if c = CHR 0x0D then
        (case cs of
           [] \<Rightarrow> [CHR 0x0A]
         | d # ds \<Rightarrow> if d = CHR 0x0A then CHR 0x0A # universal_newlines ds
                    else CHR 0x0A # universal_newlines cs)
      else c # universal_newlines cs)"

text \<open>\<^verbatim>\<open>f.readlines()\<close>, also the lines a \<^verbatim>\<open>for line in f\<close> loop sees: every line keeps
  its line feed.\<close>

fun readlines :: "string \<Rightarrow> string list" where
  "readlines [] = []"
| "readlines (c # cs) =
     (if c = CHR 0x0A then [c] # readlines cs
      else (case readlines cs of [] \<Rightarrow> [[c]] | l # ls \<Rightarrow> (c # l) # ls))"

text \<open>The lines of a file with the given bytes, read in text mode.\<close>

definition text_lines :: "string \<Rightarrow> string list" where
  "text_lines text = readlines (universal_newlines text)"

subsection \<open>The built-in \<^verbatim>\<open>float(str)\<close>\<close>

definition isdigit :: "char \<Rightarrow> bool" where
  "isdigit c \<longleftrightarrow> c \<in> set ''0123456789''"

definition digit_val :: "char \<Rightarrow> nat" where
  "digit_val c =
     (case map_of (zip ''0123456789'' [0, 1, 2, 3, 4, 5, 6, 7, 8, 9]) c of
        Some d \<Rightarrow> d | None \<Rightarrow> 0)"

text \<open>The value of a string of decimal digits, most significant digit first.\<close>

definition digits_val :: "string \<Rightarrow> nat" where
  "digits_val ds = foldl (\<lambda>acc c. 10 * acc + digit_val c) 0 ds"

text \<open>An underscore is accepted only between two digits, and is dropped. The first
  argument is the previous character, if any.\<close>

fun drop_underscores :: "char option \<Rightarrow> string \<Rightarrow> string option" where
  "drop_underscores prev [] = (if prev = Some CHR ''_'' then None else Some [])"
| "drop_underscores prev (c # cs) =
     (if c = CHR ''_'' then
        (case prev of
           None \<Rightarrow> None
         | Some p \<Rightarrow> if isdigit p then drop_underscores (Some c) cs else None)
      else if prev = Some CHR ''_'' \<and> \<not> isdigit c then None
      else map_option ((#) c) (drop_underscores (Some c) cs))"

text \<open>An optional sign: whether it is a minus, and the rest.\<close>

fun take_sign :: "string \<Rightarrow> bool \<times> string" where
  "take_sign (c # cs) =
     (if c = CHR ''-'' then (True, cs) else if c = CHR ''+'' then (False, cs) else (False, c # cs))"
| "take_sign [] = (False, [])"

text \<open>The exponent part after the mantissa: nothing, or \<open>e\<close>, an optional sign and at
  least one digit, up to the end of the string.\<close>

definition parse_exponent :: "string \<Rightarrow> int option" where
  "parse_exponent s =
     (case s of
        [] \<Rightarrow> Some 0
      | c # cs \<Rightarrow>
          if c = CHR ''e'' \<or> c = CHR ''E'' then
            (let (neg, ds) = take_sign cs in
             if ds \<noteq> [] \<and> list_all isdigit ds
             then Some (if neg then - int (digits_val ds) else int (digits_val ds))
             else None)
          else None)"

definition scale10 :: "real \<Rightarrow> int \<Rightarrow> real" where
  "scale10 x e = (if 0 \<le> e then x * 10 ^ nat e else x / 10 ^ nat (- e))"

text \<open>A decimal number without sign: digits, an optional point and digits, at least one
  digit in all, and an optional exponent.\<close>

definition parse_decimal :: "string \<Rightarrow> real option" where
  "parse_decimal s =
     (let ip = takeWhile isdigit s;
          r1 = dropWhile isdigit s;
          (fp, r2) = (case r1 of
                        [] \<Rightarrow> ([], [])
                      | c # cs \<Rightarrow> if c = CHR ''.''
                                  then (takeWhile isdigit cs, dropWhile isdigit cs)
                                  else ([], c # cs))
      in if ip = [] \<and> fp = [] then None
         else (case parse_exponent r2 of
                 None \<Rightarrow> None
               | Some e \<Rightarrow> Some (scale10 (real (digits_val (ip @ fp))) (e - int (length fp)))))"

text \<open>\<^verbatim>\<open>float(s)\<close>: \<open>None\<close> stands for the \<^verbatim>\<open>ValueError\<close> that Python raises.\<close>

definition py_float :: "string \<Rightarrow> pyfloat option" where
  "py_float s =
     (case drop_underscores None (strip s) of
        None \<Rightarrow> None
      | Some t \<Rightarrow>
          (let (neg, u) = take_sign t in
           if lower u = ''inf'' \<or> lower u = ''infinity'' then Some (if neg then NInf else PInf)
           else if lower u = ''nan'' then Some NaN
           else (case parse_decimal u of
                   None \<Rightarrow> None
                 | Some x \<Rightarrow> Some (Fin (if neg then - x else x)))))"

subsection \<open>Rounding and formatting\<close>

text \<open>\<^verbatim>\<open>round(x)\<close> of a finite float: to the nearest integer, a tie to the even one.\<close>

definition py_round :: "real \<Rightarrow> int" where
  "py_round x =
     (let f = \<lfloor>x\<rfloor>; d = x - of_int f
      in if d < 1 / 2 then f else if 1 / 2 < d then f + 1 else if even f then f else f + 1)"

definition digit_char :: "nat \<Rightarrow> char" where
  "digit_char d = ''0123456789abcdef'' ! d"

function digits_of :: "nat \<Rightarrow> nat \<Rightarrow> string" where
  "digits_of b n =
     (if b < 2 \<or> n < b then [digit_char n] else digits_of b (n div b) @ [digit_char (n mod b)])"
  by pat_completeness auto
termination
  by (relation "measure snd") auto

definition zero_pad :: "nat \<Rightarrow> string \<Rightarrow> string" where
  "zero_pad w s = replicate (w - length s) CHR ''0'' @ s"

text \<open>\<^verbatim>\<open>f"{n:02x}"\<close> of an integer: lowercase hexadecimal, padded with zeros to two
  characters, the sign counted in.\<close>

definition format_02x :: "int \<Rightarrow> string" where
  "format_02x n =
     (if n < 0 then CHR ''-'' # zero_pad 1 (digits_of 16 (nat (- n)))
      else zero_pad 2 (digits_of 16 (nat n)))"

text \<open>\<^verbatim>\<open>f"{x:.1f}"\<close> of a float: one digit after the point.\<close>

fun format_1f :: "pyfloat \<Rightarrow> string" where
  "format_1f (Fin x) =
     (let t = nat (py_round (\<bar>x\<bar> * 10))
      in (if x < 0 then ''-'' else '''') @ digits_of 10 (t div 10) @ ''.'' @ [digit_char (t mod 10)])"
| "format_1f PInf = ''inf''"
| "format_1f NInf = ''-inf''"
| "format_1f NaN = ''nan''"

section \<open>Colour arithmetic\<close>

text \<open>\<^verbatim>\<open>clamp(value, min_val=0, max_val=255)\<close>. \<^verbatim>\<open>round\<close> raises on a float that is not
  finite.\<close>

fun clamp :: "pyfloat \<Rightarrow> int \<Rightarrow> int \<Rightarrow> py_error + int" where
  "clamp (Fin x) min_val max_val = Inr (max min_val (min (py_round x) max_val))"
| "clamp NaN min_val max_val = Inl ValueError"
| "clamp PInf min_val max_val = Inl OverflowError"
| "clamp NInf min_val max_val = Inl OverflowError"

definition compute_color :: "pyfloat \<Rightarrow> pyfloat \<Rightarrow> pyfloat \<Rightarrow> py_error + string" where
  "compute_color base wb tint =
     (case clamp (fadd base wb) 0 255 of
        Inl e \<Rightarrow> Inl e
      | Inr r \<Rightarrow>
     (case clamp (fadd base tint) 0 255 of
        Inl e \<Rightarrow> Inl e
      | Inr g \<Rightarrow>
     (case clamp (fsub base wb) 0 255 of
        Inl e \<Rightarrow> Inl e
      | Inr b \<Rightarrow> Inr (CHR ''#'' # format_02x r @ format_02x g @ format_02x b))))"

section \<open>Constants and persistent data\<close>

text \<open>\<^verbatim>\<open>os.path.join\<close> of a directory name and a file name, with the separator \<open>/\<close>.\<close>

definition path_join :: "string \<Rightarrow> string \<Rightarrow> string" where
  "path_join d f = (case f of c # cs \<Rightarrow> if c = CHR ''/'' then f else d @ ''/'' @ f | [] \<Rightarrow> d @ ''/'')"

definition CALIBRATION_DIR :: string where
  "CALIBRATION_DIR = ''DisplaySettings''"

definition CALIBRATION_FILE :: string where
  "CALIBRATION_FILE = path_join CALIBRATION_DIR ''UserDisplayCalibration.txt''"

definition CCT_SETTINGS_DIR :: string where
  "CCT_SETTINGS_DIR = ''CCT_Settings''"

definition brightness_levels :: "(string \<times> int) list" where
  "brightness_levels =
     [(''black'', 0), (''dark gray'', 64), (''gray'', 128), (''light gray'', 192), (''white'', 255)]"

definition test_color_values :: "(string \<times> int) list" where
  "test_color_values =
     [(''Black'', 0), (''Dark Gray'', 64), (''Gray'', 128), (''Light Gray'', 192), (''White'', 255)]"

text \<open>A calibration record, the dictionary with the keys \<^verbatim>\<open>'white_balance'\<close> and
  \<^verbatim>\<open>'tint'\<close>, and a phone profile record. A Python dictionary is an association list in
  insertion order: \<^const>\<open>AList.update\<close> replaces the value of a key where it stands and puts
  a new key at the end.\<close>

record calib =
  white_balance :: pyfloat
  tint :: pyfloat

record profile =
  temperature :: string
  wb_correction :: pyfloat
  tint_correction :: pyfloat

text \<open>The files: the bytes stored under each path, and the history of the files written
  (path and text), in order. A text is written as it is (the line separator is the line
  feed). Directories and what \<^verbatim>\<open>print\<close> writes are not modelled, but for the lines that
  \<open>load_calibration_data\<close> reports.\<close>

record filesystem =
  files :: "string \<Rightarrow> string option"
  writes :: "(string \<times> string) list"

definition write_file :: "string \<Rightarrow> string \<Rightarrow> filesystem \<Rightarrow> filesystem" where
  "write_file path text fs = fs\<lparr>files := (files fs)(path \<mapsto> text), writes := writes fs @ [(path, text)]\<rparr>"

subsection \<open>The monitor calibration file\<close>

text \<open>The body of the loop of \<^verbatim>\<open>load_calibration_data\<close> for one stripped, non-empty
  line: \<open>None\<close> when the \<^verbatim>\<open>try\<close> block raises (an unpacking of other than two parts,
  or a \<^verbatim>\<open>float\<close> that fails).\<close>

definition parse_calibration_line :: "string \<Rightarrow> (string \<times> calib) option" where
  "parse_calibration_line line =
     (case split CHR '':'' line of
        [level, params] \<Rightarrow>
          (case split CHR '','' params of
             [wb, tint_s] \<Rightarrow>
               (case py_float wb of
                  None \<Rightarrow> None
                | Some w \<Rightarrow>
                    (case py_float tint_s of
                       None \<Rightarrow> None
                     | Some t \<Rightarrow> Some (lower (strip level), \<lparr>white_balance = w, tint = t\<rparr>)))
           | _ \<Rightarrow> None)
      | _ \<Rightarrow> None)"

text \<open>The loop over the lines: the dictionary built so far and the lines reported by
  \<^verbatim>\<open>print\<close> in the \<^verbatim>\<open>except\<close> branch.\<close>

fun calibration_loop ::
  "string list \<Rightarrow> (string \<times> calib) list \<times> string list \<Rightarrow> (string \<times> calib) list \<times> string list" where
  "calibration_loop [] acc = acc"
| "calibration_loop (l # ls) (calibration_values, printed) =
     (let line = strip l in
      if line = [] then calibration_loop ls (calibration_values, printed)
      else (case parse_calibration_line line of
              Some (level, values) \<Rightarrow>
                calibration_loop ls (AList.update level values calibration_values, printed)
            | None \<Rightarrow> calibration_loop ls (calibration_values, printed @ [line])))"

definition load_calibration_data :: "filesystem \<Rightarrow> (string \<times> calib) list \<times> string list" where
  "load_calibration_data fs =
     (case files fs CALIBRATION_FILE of
        None \<Rightarrow> ([], [])
      | Some text \<Rightarrow> calibration_loop (text_lines text) ([], []))"

text \<open>\<^verbatim>\<open>save_calibration_data\<close>. The first argument is the text that an f-string puts for
  a float (Python's \<^verbatim>\<open>repr\<close>).\<close>

definition calibration_text :: "(pyfloat \<Rightarrow> string) \<Rightarrow> (string \<times> calib) list \<Rightarrow> string" where
  "calibration_text float_repr calibration_values =
     concat (map (\<lambda>(level, values).
        level @ '':'' @ float_repr (white_balance values) @ '','' @ float_repr (tint values) @ [CHR 0x0A])
        calibration_values)"

definition save_calibration_data ::
  "(pyfloat \<Rightarrow> string) \<Rightarrow> (string \<times> calib) list \<Rightarrow> filesystem \<Rightarrow> filesystem" where
  "save_calibration_data float_repr calibration_values fs =
     write_file CALIBRATION_FILE (calibration_text float_repr calibration_values) fs"

section \<open>The calibration stage\<close>

record calibration_app =
  calibration_values :: "(string \<times> calib) list"
  current_index :: nat
  current_level :: string
  current_base :: int
  current_wb :: pyfloat
  current_tint :: pyfloat
  wb_scale :: pyfloat
  tint_scale :: pyfloat
  app_root_bg :: string
  overlay_title :: string
  overlay_destroyed :: bool
  finish_callback_arg :: "(string \<times> calib) list option"

text \<open>A handler returns the exception that ended it, if any, and the state it left.\<close>

definition capitalize :: "string \<Rightarrow> string" where
  "capitalize s = (case s of [] \<Rightarrow> [] | c # cs \<Rightarrow> upper_char c # lower cs)"

definition CalibrationApp_update_background ::
  "calibration_app \<Rightarrow> py_error option \<times> calibration_app" where
  "CalibrationApp_update_background app =
     (case compute_color (Fin (of_int (current_base app))) (current_wb app) (current_tint app) of
        Inl e \<Rightarrow> (Some e, app)
      | Inr color \<Rightarrow> (None, app\<lparr>app_root_bg := color\<rparr>))"

definition CalibrationApp_init :: "string \<Rightarrow> calibration_app" where
  "CalibrationApp_init bg0 =
     (let (level, base) = brightness_levels ! 0
      in snd (CalibrationApp_update_background
           \<lparr>calibration_values = [], current_index = 0, current_level = level,
            current_base = base, current_wb = Fin 0, current_tint = Fin 0,
            wb_scale = Fin 0, tint_scale = Fin 0, app_root_bg = bg0,
            overlay_title = ''Calibration: '' @ capitalize level,
            overlay_destroyed = False, finish_callback_arg = None\<rparr>))"

definition on_wb_change :: "string \<Rightarrow> calibration_app \<Rightarrow> py_error option \<times> calibration_app" where
  "on_wb_change val app =
     CalibrationApp_update_background
       (app\<lparr>current_wb := (case py_float val of Some v \<Rightarrow> v | None \<Rightarrow> Fin 0)\<rparr>)"

definition on_tint_change :: "string \<Rightarrow> calibration_app \<Rightarrow> py_error option \<times> calibration_app" where
  "on_tint_change val app =
     CalibrationApp_update_background
       (app\<lparr>current_tint := (case py_float val of Some v \<Rightarrow> v | None \<Rightarrow> Fin 0)\<rparr>)"

definition on_next ::
  "(pyfloat \<Rightarrow> string) \<Rightarrow> calibration_app \<times> filesystem \<Rightarrow>
     py_error option \<times> calibration_app \<times> filesystem" where
  "on_next float_repr = (\<lambda>(app, fs).
     (let values = AList.update (current_level app)
                     \<lparr>white_balance = current_wb app, tint = current_tint app\<rparr>
                     (calibration_values app);
          index = current_index app + 1;
          app1 = app\<lparr>calibration_values := values, current_index := index\<rparr>
      in if index < length brightness_levels then
           (let (level, base) = brightness_levels ! index;
                (err, app2) = CalibrationApp_update_background
                   (app1\<lparr>current_level := level, current_base := base,
                         current_wb := Fin 0, current_tint := Fin 0,
                         wb_scale := Fin 0, tint_scale := Fin 0,
                         overlay_title := ''Calibration: '' @ capitalize level\<rparr>)
            in (err, app2, fs))
         else (None, app1\<lparr>overlay_destroyed := True, finish_callback_arg := Some values\<rparr>,
               save_calibration_data float_repr values fs)))"

text \<open>The events of the calibration overlay: a slider moved to the value Tk reports as a
  string, and the \<open>Next\<close> button. A run handles the events in order; an exception in a
  handler ends that handler only.\<close>

datatype wizard_event = WbChange string | TintChange string | Next

fun wizard_step ::
  "(pyfloat \<Rightarrow> string) \<Rightarrow> wizard_event \<Rightarrow> calibration_app \<times> filesystem \<Rightarrow> calibration_app \<times> filesystem" where
  "wizard_step float_repr (WbChange val) (app, fs) = (snd (on_wb_change val app), fs)"
| "wizard_step float_repr (TintChange val) (app, fs) = (snd (on_tint_change val app), fs)"
| "wizard_step float_repr Next (app, fs) = snd (on_next float_repr (app, fs))"

fun wizard_run ::
  "(pyfloat \<Rightarrow> string) \<Rightarrow> wizard_event list \<Rightarrow> calibration_app \<times> filesystem \<Rightarrow> calibration_app \<times> filesystem" where
  "wizard_run float_repr [] w = w"
| "wizard_run float_repr (ev # evs) w = wizard_run float_repr evs (wizard_step float_repr ev w)"

section \<open>The second stage\<close>

record stage_two_ui =
  calibration_data :: "(string \<times> calib) list"
  test_color_var :: string
  phone_file_var :: string
  phone_profile_var :: string
  phone_temp_var :: string
  user_wb_var :: pyfloat
  user_tint_var :: pyfloat
  phone_profiles :: "(string \<times> profile) list"
  root_bg :: string

text \<open>The Tk variables are cells: \<^verbatim>\<open>get\<close> returns what \<^verbatim>\<open>set\<close> stored. The menus of the
  panel are not modelled.\<close>

text \<open>The temperature correction of \<^verbatim>\<open>update_background\<close>, from the text of the
  temperature entry.\<close>

definition phone_temp_corr :: "string \<Rightarrow> pyfloat" where
  "phone_temp_corr temp_var =
     (let temp_str = strip temp_var
      in if upper temp_str \<noteq> ''NA'' \<and> temp_str \<noteq> '''' then
           (case py_float temp_str of
              Some temp_val \<Rightarrow> fdiv100 (fsub temp_val (Fin 6500))
            | None \<Rightarrow> Fin 0)
         else Fin 0)"

definition update_background :: "stage_two_ui \<Rightarrow> py_error option \<times> stage_two_ui" where
  "update_background st =
     (let test_color_name = test_color_var st;
          base = (case map_of test_color_values test_color_name of Some b \<Rightarrow> b | None \<Rightarrow> 128);
          calib = (case map_of (calibration_data st) (lower test_color_name) of
                     Some c \<Rightarrow> c
                   | None \<Rightarrow> \<lparr>white_balance = Fin 0, tint = Fin 0\<rparr>);
          monitor_wb = white_balance calib;
          monitor_tint = tint calib;
          user_wb = user_wb_var st;
          user_tint = user_tint_var st;
          final_wb = fadd (fadd monitor_wb (phone_temp_corr (phone_temp_var st))) user_wb;
          final_tint = fadd monitor_tint user_tint
      in case compute_color (Fin (of_int base)) final_wb final_tint of
           Inl e \<Rightarrow> (Some e, st)
         | Inr final_color \<Rightarrow> (None, st\<lparr>root_bg := final_color\<rparr>))"

definition on_phone_profile_change :: "string \<Rightarrow> stage_two_ui \<Rightarrow> py_error option \<times> stage_two_ui" where
  "on_phone_profile_change val st =
     update_background
       (case map_of (phone_profiles st) val of
          Some profile \<Rightarrow>
            st\<lparr>user_wb_var := wb_correction profile,
               user_tint_var := tint_correction profile,
               phone_temp_var := temperature profile\<rparr>
        | None \<Rightarrow> st)"

text \<open>A correction field of a profile line: \<open>None\<close> when \<^verbatim>\<open>float\<close> raises.\<close>

definition correction_field :: "string \<Rightarrow> pyfloat option" where
  "correction_field s = (if s \<noteq> '''' \<and> s \<noteq> ''NA'' then py_float s else Some (Fin 0))"

text \<open>The loop of \<^verbatim>\<open>load_phone_profiles\<close> over the lines of the file. A \<^verbatim>\<open>float\<close> that
  fails is not caught: the loop ends there with the dictionary built so far.\<close>

fun profiles_loop ::
  "string list \<Rightarrow> (string \<times> profile) list \<Rightarrow> py_error option \<times> (string \<times> profile) list" where
  "profiles_loop [] profiles = (None, profiles)"
| "profiles_loop (l # ls) profiles =
     (let line = strip l in
      if line = [] then profiles_loop ls profiles
      else (let parts = map strip (split CHR ''|'' line) in
            if length parts < 4 then profiles_loop ls profiles
            else (case correction_field (parts ! 2) of
                    None \<Rightarrow> (Some ValueError, profiles)
                  | Some wb \<Rightarrow>
                      (case correction_field (parts ! 3) of
                         None \<Rightarrow> (Some ValueError, profiles)
                       | Some tn \<Rightarrow>
                           profiles_loop ls
                             (AList.update (parts ! 0)
                                \<lparr>temperature = parts ! 1, wb_correction = wb, tint_correction = tn\<rparr>
                                profiles)))))"

definition load_phone_profiles ::
  "filesystem \<Rightarrow> string \<Rightarrow> stage_two_ui \<Rightarrow> py_error option \<times> stage_two_ui" where
  "load_phone_profiles fs filename st =
     (case files fs (path_join CCT_SETTINGS_DIR filename) of
        None \<Rightarrow> (None, st\<lparr>phone_profiles := []\<rparr>)
      | Some text \<Rightarrow>
          (case profiles_loop (text_lines text) [] of
             (Some e, profiles) \<Rightarrow> (Some e, st\<lparr>phone_profiles := profiles\<rparr>)
           | (None, profiles) \<Rightarrow>
               (case profiles of
                  [] \<Rightarrow> (None, st\<lparr>phone_profiles := profiles, phone_profile_var := ''No profiles''\<rparr>)
                | (first_profile, _) # _ \<Rightarrow>
                    on_phone_profile_change first_profile
                      (st\<lparr>phone_profiles := profiles, phone_profile_var := first_profile\<rparr>))))"

definition on_phone_file_change ::
  "filesystem \<Rightarrow> string \<Rightarrow> stage_two_ui \<Rightarrow> py_error option \<times> stage_two_ui" where
  "on_phone_file_change fs val st =
     (case load_phone_profiles fs val st of
        (Some e, st') \<Rightarrow> (Some e, st')
      | (None, st') \<Rightarrow> update_background st')"

text \<open>The line that \<^verbatim>\<open>on_save_changes\<close> writes for the selected profile.\<close>

definition new_profile_line :: "string \<Rightarrow> stage_two_ui \<Rightarrow> string" where
  "new_profile_line profile_name st =
     profile_name @ '' | '' @ strip (phone_temp_var st) @ '' | '' @ format_1f (user_wb_var st)
       @ '' | '' @ format_1f (user_tint_var st) @ [CHR 0x0A]"

text \<open>The loop of \<^verbatim>\<open>on_save_changes\<close> over the lines read: the lines to write so far and
  the state, whose profile dictionary the loop updates. A profile that the dictionary does
  not hold raises \<^verbatim>\<open>KeyError\<close>.\<close>

fun save_loop ::
  "string list \<Rightarrow> string list \<Rightarrow> stage_two_ui \<Rightarrow> (py_error + string list) \<times> stage_two_ui" where
  "save_loop [] new_lines st = (Inr new_lines, st)"
| "save_loop (line # lines) new_lines st =
     (let line_strip = strip line in
      if line_strip = [] then save_loop lines new_lines st
      else (let parts = map strip (split CHR ''|'' line_strip) in
            if length parts < 4 then save_loop lines (new_lines @ [line]) st
            else (let profile_name = parts ! 0 in
                  if profile_name = phone_profile_var st then
                    (case map_of (phone_profiles st) profile_name of
                       None \<Rightarrow> (Inl KeyError, st)
                     | Some p \<Rightarrow>
                         (let p1 = p\<lparr>temperature := strip (phone_temp_var st)\<rparr>;
                              st1 = st\<lparr>phone_profiles := AList.update profile_name p1 (phone_profiles st)\<rparr>
                          in case py_float (format_1f (user_wb_var st)) of
                               None \<Rightarrow> (Inl ValueError, st1)
                             | Some wb \<Rightarrow>
                                 (let p2 = p1\<lparr>wb_correction := wb\<rparr>;
                                      st2 = st\<lparr>phone_profiles := AList.update profile_name p2 (phone_profiles st)\<rparr>
                                  in case py_float (format_1f (user_tint_var st)) of
                                       None \<Rightarrow> (Inl ValueError, st2)
                                     | Some tn \<Rightarrow>
                                         save_loop lines (new_lines @ [new_profile_line profile_name st])
                                           (st\<lparr>phone_profiles :=
                                                 AList.update profile_name (p2\<lparr>tint_correction := tn\<rparr>)
                                                   (phone_profiles st)\<rparr>))))
                  else save_loop lines (new_lines @ [line]) st)))"

definition on_save_changes ::
  "stage_two_ui \<times> filesystem \<Rightarrow> py_error option \<times> stage_two_ui \<times> filesystem" where
  "on_save_changes = (\<lambda>(st, fs).
     (let phone_file = phone_file_var st in
      if phone_file = '''' \<or> phone_file = ''No files found'' then (None, st, fs)
      else (let filepath = path_join CCT_SETTINGS_DIR phone_file;
                lines = (case files fs filepath of Some text \<Rightarrow> text_lines text | None \<Rightarrow> [])
            in case save_loop lines [] st of
                 (Inl e, st') \<Rightarrow> (Some e, st', fs)
               | (Inr new_lines, st') \<Rightarrow> (None, st', write_file filepath (concat new_lines) fs))))"

section \<open>Predicates of the statements\<close>

text \<open>A correction within the range of the sliders, \<open>-50\<close> to \<open>50\<close>.\<close>

definition in_range :: "pyfloat \<Rightarrow> bool" where
  "in_range v = (case v of Fin x \<Rightarrow> - 50 \<le> x \<and> x \<le> 50 | _ \<Rightarrow> False)"

definition calib_in_range :: "calib \<Rightarrow> bool" where
  "calib_in_range c \<longleftrightarrow> in_range (white_balance c) \<and> in_range (tint c)"

text \<open>A slider event whose value, when \<^verbatim>\<open>float\<close> accepts it, is within the range of the
  slider.\<close>

fun slider_in_range :: "wizard_event \<Rightarrow> bool" where
  "slider_in_range (WbChange val) = (case py_float val of Some v \<Rightarrow> in_range v | None \<Rightarrow> True)"
| "slider_in_range (TintChange val) = (case py_float val of Some v \<Rightarrow> in_range v | None \<Rightarrow> True)"
| "slider_in_range Next = True"

text \<open>A line that both profile loops pass over, the fields of a profile line, and a line
  that is a record of a given profile: four fields or more, the first one the name.\<close>

definition is_blank :: "string \<Rightarrow> bool" where
  "is_blank line \<longleftrightarrow> strip line = ''''"

definition profile_fields :: "string \<Rightarrow> string list" where
  "profile_fields line = map strip (split CHR ''|'' (strip line))"

definition is_record_of :: "string \<Rightarrow> string \<Rightarrow> bool" where
  "is_record_of name line \<longleftrightarrow> 4 \<le> length (profile_fields line) \<and> profile_fields line ! 0 = name"

text \<open>A float rounded to one digit after the point, and the record that
  \<open>on_save_changes\<close> keeps for the selected profile.\<close>

fun one_decimal :: "pyfloat \<Rightarrow> pyfloat" where
  "one_decimal (Fin x) =
     Fin ((if x < 0 then - 1 else 1) * real (nat (py_round (\<bar>x\<bar> * 10))) / 10)"
| "one_decimal v = v"

definition saved_record :: "stage_two_ui \<Rightarrow> profile" where
  "saved_record st =
     \<lparr>temperature = strip (phone_temp_var st),
      wb_correction = one_decimal (user_wb_var st),
      tint_correction = one_decimal (user_tint_var st)\<rparr>"

text \<open>What the statements assume of the text that Python's \<^verbatim>\<open>repr\<close> gives for a float:
  \<^verbatim>\<open>float\<close> reads it back as the same float, and it has no white space, colon or comma.\<close>

definition repr_round_trips :: "(pyfloat \<Rightarrow> string) \<Rightarrow> pyfloat \<Rightarrow> bool" where
  "repr_round_trips float_repr v \<longleftrightarrow>
     py_float (float_repr v) = Some v
     \<and> list_all (\<lambda>c. \<not> isspace c \<and> c \<noteq> CHR '':'' \<and> c \<noteq> CHR '','') (float_repr v)"

definition is_finite :: "pyfloat \<Rightarrow> bool" where
  "is_finite v = (case v of Fin x \<Rightarrow> True | _ \<Rightarrow> False)"

definition calib_round_trips :: "(pyfloat \<Rightarrow> string) \<Rightarrow> calib \<Rightarrow> bool" where
  "calib_round_trips float_repr values \<longleftrightarrow>
     is_finite (white_balance values) \<and> is_finite (tint values)
     \<and> repr_round_trips float_repr (white_balance values)
     \<and> repr_round_trips float_repr (tint values)"

text \<open>Lines as \<open>readlines\<close> gives them: none is empty, a line feed stands only at the end
  of a line, and every line but the last has one.\<close>

fun proper_lines :: "string list \<Rightarrow> bool" where
  "proper_lines [] = True"
| "proper_lines [l] = (l \<noteq> [] \<and> CHR 0x0A \<notin> set (butlast l))"
| "proper_lines (l # ls) =
     (l \<noteq> [] \<and> CHR 0x0A \<notin> set (butlast l) \<and> last l = CHR 0x0A \<and> proper_lines ls)"

section \<open>Numbers and colours\<close>

lemma fadd_zero_right: "fadd x (Fin 0) = x"
  by (cases x) simp_all



lemma py_round_of_int: "py_round (of_int n) = n"
  by (simp add: py_round_def)

lemma py_round_numeral: "py_round (numeral n) = numeral n"
  using py_round_of_int[of "numeral n"] by simp

lemma py_round_zero: "py_round 0 = 0"
  using py_round_of_int[of 0] by simp


lemma digit_char_0: "digit_char 0 = CHR ''0''"
  by (simp add: digit_char_def)

lemma digits_of_16_byte:
  "16 \<le> n \<Longrightarrow> n < 256 \<Longrightarrow> digits_of 16 n = [digit_char (n div 16), digit_char (n mod 16)]"
  by (subst digits_of.simps) (simp add: less_mult_imp_div_less)

text \<open>A channel value is printed as exactly two hexadecimal digits.\<close>

lemma format_02x_byte:
  assumes "0 \<le> n" and "n \<le> 255"
  shows "format_02x n = [digit_char (nat n div 16), digit_char (nat n mod 16)]"
proof (cases "nat n < 16")
  case True
  then show ?thesis
    using assms by (simp add: format_02x_def zero_pad_def digit_char_0)
next
  case False
  then have "16 \<le> nat n" and "nat n < 256"
    using assms by auto
  then show ?thesis
    using assms by (simp add: format_02x_def zero_pad_def digits_of_16_byte del: digits_of.simps)
qed


lemma compute_color_Fin:
  "compute_color (Fin base) (Fin wb) (Fin tn) =
     Inr (CHR ''#'' # format_02x (max 0 (min (py_round (base + wb)) 255))
            @ format_02x (max 0 (min (py_round (base + tn)) 255))
            @ format_02x (max 0 (min (py_round (base - wb)) 255)))"
  by (simp add: compute_color_def fsub_def)

text \<open>
  C2. For all finite base, white-balance and tint values, whatever their size,
  \<open>compute_color\<close> returns a colour, and each of its three channels, the clamped values
  it formats, lies between 0 and 255.
\<close>

theorem compute_color_in_8bit_range:
  "\<exists>r g b. compute_color (Fin base) (Fin wb) (Fin tn)
              = Inr (CHR ''#'' # format_02x r @ format_02x g @ format_02x b)
     \<and> clamp (Fin (base + wb)) 0 255 = Inr r \<and> 0 \<le> r \<and> r \<le> 255
     \<and> clamp (Fin (base + tn)) 0 255 = Inr g \<and> 0 \<le> g \<and> g \<le> 255
     \<and> clamp (Fin (base - wb)) 0 255 = Inr b \<and> 0 \<le> b \<and> b \<le> 255"
  by (simp add: compute_color_Fin)



section \<open>The background of the second stage\<close>




lemmas py_float_eval =
  py_float_def strip_def isspace_def parse_decimal_def isdigit_def parse_exponent_def
  digits_val_def digit_val_def scale10_def lower_def lower_char_def


lemma py_float_empty: "py_float [] = None"
  by (simp add: py_float_eval)


lemma phone_temp_corr_zero:
  "strip s = '''' \<or> upper (strip s) = ''NA'' \<or> py_float (strip s) = None
     \<Longrightarrow> phone_temp_corr s = Fin 0"
  by (auto simp: phone_temp_corr_def Let_def)



text \<open>
  C7. When the text of the temperature entry, stripped, is empty, is \<open>NA\<close> in any letter
  case, or is not accepted by \<^verbatim>\<open>float\<close>, the temperature correction is zero and
  \<open>update_background\<close> sets the colour computed from the monitor calibration and the
  sliders alone.
\<close>

theorem update_background_no_temperature:
  assumes "strip (phone_temp_var st) = ''''
           \<or> upper (strip (phone_temp_var st)) = ''NA''
           \<or> py_float (strip (phone_temp_var st)) = None"
  shows "phone_temp_corr (phone_temp_var st) = Fin 0
         \<and> update_background st =
             (let base = (case map_of test_color_values (test_color_var st) of
                            Some b \<Rightarrow> b | None \<Rightarrow> 128);
                  monitor = (case map_of (calibration_data st) (lower (test_color_var st)) of
                               Some c \<Rightarrow> c | None \<Rightarrow> \<lparr>white_balance = Fin 0, tint = Fin 0\<rparr>)
              in case compute_color (Fin (of_int base))
                        (fadd (white_balance monitor) (user_wb_var st))
                        (fadd (tint monitor) (user_tint_var st)) of
                   Inl e \<Rightarrow> (Some e, st)
                 | Inr color \<Rightarrow> (None, st\<lparr>root_bg := color\<rparr>))"
  using phone_temp_corr_zero[OF assms]
  by (simp add: update_background_def Let_def fadd_zero_right)

theorem update_background_no_temperature_witness:
  "(let st = \<lparr>calibration_data = [(''gray'', \<lparr>white_balance = Fin 1.5, tint = Fin (- 2)\<rparr>)],
              test_color_var = ''Gray'', phone_file_var = ''phones.txt'',
              phone_profile_var = ''P'', phone_temp_var = '' na '',
              user_wb_var = Fin 2, user_tint_var = Fin 1, phone_profiles = [],
              root_bg = ''#000000''\<rparr>
    in upper (strip (phone_temp_var st)) = ''NA''
       \<and> phone_temp_corr (phone_temp_var st) = Fin 0
       \<and> compute_color (Fin 128) (Fin (1.5 + 2)) (Fin (- 2 + 1)) = Inr ''#847f7c''
       \<and> update_background st = (None, st\<lparr>root_bg := ''#847f7c''\<rparr>))"
proof -
  define st where "st = \<lparr>calibration_data = [(''gray'', \<lparr>white_balance = Fin 1.5, tint = Fin (- 2)\<rparr>)],
              test_color_var = ''Gray'', phone_file_var = ''phones.txt'',
              phone_profile_var = ''P'', phone_temp_var = '' na '',
              user_wb_var = Fin 2, user_tint_var = Fin 1, phone_profiles = [],
              root_bg = ''#000000''\<rparr>"
  have h: "upper (strip (phone_temp_var st)) = ''NA''"
    by (simp add: st_def strip_def isspace_def upper_def upper_char_def)
  then have h': "strip (phone_temp_var st) = ''''
           \<or> upper (strip (phone_temp_var st)) = ''NA''
           \<or> py_float (strip (phone_temp_var st)) = None"
    by simp
  have c: "compute_color (Fin 128) (Fin (1.5 + 2)) (Fin (- 2 + 1)) = Inr ''#847f7c''"
    by (simp add: compute_color_Fin py_round_def format_02x_byte digit_char_def)
  have look: "map_of test_color_values (test_color_var st) = Some 128"
     "map_of (calibration_data st) (lower (test_color_var st))
              = Some \<lparr>white_balance = Fin 1.5, tint = Fin (- 2)\<rparr>"
     "user_wb_var st = Fin 2" "user_tint_var st = Fin 1"
    by (simp_all add: st_def test_color_values_def lower_def lower_char_def)
  from update_background_no_temperature[OF h'] c look
  have "phone_temp_corr (phone_temp_var st) = Fin 0
        \<and> update_background st = (None, st\<lparr>root_bg := ''#847f7c''\<rparr>)"
    by (simp add: Let_def)
  with h c show ?thesis
    by (simp add: st_def)
qed

section \<open>Selecting a phone profile\<close>

lemma update_background_frame:
  "user_wb_var (snd (update_background st)) = user_wb_var st
   \<and> user_tint_var (snd (update_background st)) = user_tint_var st
   \<and> phone_temp_var (snd (update_background st)) = phone_temp_var st
   \<and> phone_profiles (snd (update_background st)) = phone_profiles st
   \<and> phone_profile_var (snd (update_background st)) = phone_profile_var st
   \<and> phone_file_var (snd (update_background st)) = phone_file_var st"
  by (simp add: update_background_def Let_def split: sum.split)

text \<open>
  C5. Selecting a profile name that the profile dictionary holds sets the white-balance
  slider and the tint slider to the corrections of its record and the temperature entry
  to the temperature text of its record, as stored (the text \<open>NA\<close> included).
\<close>

theorem on_phone_profile_change_sets_fields:
  assumes "map_of (phone_profiles st) name = Some p"
  shows "user_wb_var (snd (on_phone_profile_change name st)) = wb_correction p
         \<and> user_tint_var (snd (on_phone_profile_change name st)) = tint_correction p
         \<and> phone_temp_var (snd (on_phone_profile_change name st)) = temperature p"
  using assms by (simp add: on_phone_profile_change_def update_background_frame)

theorem on_phone_profile_change_sets_fields_witness:
  "(let st = \<lparr>calibration_data = [], test_color_var = ''Gray'', phone_file_var = ''phones.txt'',
              phone_profile_var = ''A'', phone_temp_var = ''6500'',
              user_wb_var = Fin 0, user_tint_var = Fin 0,
              phone_profiles =
                [(''A'', \<lparr>temperature = ''6500'', wb_correction = Fin 1, tint_correction = Fin 2\<rparr>),
                 (''B'', \<lparr>temperature = ''NA'', wb_correction = Fin (- 3.5), tint_correction = Fin 4\<rparr>)],
              root_bg = ''#000000''\<rparr>;
        st' = snd (on_phone_profile_change ''B'' st)
    in user_wb_var st' = Fin (- 3.5) \<and> user_tint_var st' = Fin 4 \<and> phone_temp_var st' = ''NA'')"
proof -
  define st where "st = \<lparr>calibration_data = [], test_color_var = ''Gray'', phone_file_var = ''phones.txt'',
              phone_profile_var = ''A'', phone_temp_var = ''6500'',
              user_wb_var = Fin 0, user_tint_var = Fin 0,
              phone_profiles =
                [(''A'', \<lparr>temperature = ''6500'', wb_correction = Fin 1, tint_correction = Fin 2\<rparr>),
                 (''B'', \<lparr>temperature = ''NA'', wb_correction = Fin (- 3.5), tint_correction = Fin 4\<rparr>)],
              root_bg = ''#000000''\<rparr>"
  have h: "map_of (phone_profiles st) ''B''
             = Some \<lparr>temperature = ''NA'', wb_correction = Fin (- 3.5), tint_correction = Fin 4\<rparr>"
    by (simp add: st_def)
  from on_phone_profile_change_sets_fields[OF h] show ?thesis
    by (simp add: st_def Let_def)
qed

section \<open>Loading the phone profiles\<close>

text \<open>
  C6. A profile line with four fields whose correction is not a number is not skipped:
  \<^verbatim>\<open>float\<close> raises in \<open>load_phone_profiles\<close>, nothing catches it, and the lines after it
  are not read.
\<close>

theorem load_phone_profiles_raises:
  "load_phone_profiles
     \<lparr>files = Map.empty(''CCT_Settings/phones.txt'' \<mapsto>
                ''A | 6500 | 1.0 | 2.0\<newline>P | 6500 | abc | 0\<newline>B | 5000 | 3.0 | 4.0\<newline>''),
      writes = []\<rparr>
     ''phones.txt'' st
   = (Some ValueError,
      st\<lparr>phone_profiles :=
           [(''A'', \<lparr>temperature = ''6500'', wb_correction = Fin 1, tint_correction = Fin 2\<rparr>)]\<rparr>)"
  by (simp add: load_phone_profiles_def path_join_def CCT_SETTINGS_DIR_def correction_field_def
      text_lines_def py_float_eval)

section \<open>Properties of the calibration stage\<close>

lemma CalibrationApp_update_background_frame:
  "snd (CalibrationApp_update_background app) = app
   \<or> (\<exists>c. snd (CalibrationApp_update_background app) = app\<lparr>app_root_bg := c\<rparr>)"
  by (auto simp: CalibrationApp_update_background_def split: sum.split)

lemma CalibrationApp_update_background_finite:
  "current_wb app = Fin w \<Longrightarrow> current_tint app = Fin t \<Longrightarrow>
   \<exists>c. CalibrationApp_update_background app = (None, app\<lparr>app_root_bg := c\<rparr>)"
  by (auto simp: CalibrationApp_update_background_def compute_color_Fin)

lemma wizard_run_append:
  "wizard_run r (xs @ ys) w = wizard_run r ys (wizard_run r xs w)"
  by (induction xs arbitrary: w) simp_all

lemma list_all_update:
  "P v \<Longrightarrow> list_all P (map snd al) \<Longrightarrow> list_all P (map snd (AList.update k v al))"
  by (induction al) auto

text \<open>A press of \<open>Next\<close> before the last level: no exception, no file written, the pair
  recorded under the current level and the corrections and sliders back at zero.\<close>

lemma on_next_not_last:
  assumes "current_index app + 1 < length brightness_levels"
  shows "\<exists>c. on_next float_repr (app, fs) =
           (None,
            app\<lparr>calibration_values :=
                  AList.update (current_level app)
                    \<lparr>white_balance = current_wb app, tint = current_tint app\<rparr>
                    (calibration_values app),
                current_index := current_index app + 1,
                current_level := fst (brightness_levels ! (current_index app + 1)),
                current_base := snd (brightness_levels ! (current_index app + 1)),
                current_wb := Fin 0, current_tint := Fin 0,
                wb_scale := Fin 0, tint_scale := Fin 0,
                overlay_title := ''Calibration: ''
                   @ capitalize (fst (brightness_levels ! (current_index app + 1))),
                app_root_bg := c\<rparr>,
            fs)"
proof -
  let ?app2 = "app\<lparr>calibration_values :=
                  AList.update (current_level app)
                    \<lparr>white_balance = current_wb app, tint = current_tint app\<rparr>
                    (calibration_values app),
                current_index := current_index app + 1,
                current_level := fst (brightness_levels ! (current_index app + 1)),
                current_base := snd (brightness_levels ! (current_index app + 1)),
                current_wb := Fin 0, current_tint := Fin 0,
                wb_scale := Fin 0, tint_scale := Fin 0,
                overlay_title := ''Calibration: ''
                   @ capitalize (fst (brightness_levels ! (current_index app + 1)))\<rparr>"
  obtain c where c: "CalibrationApp_update_background ?app2 = (None, ?app2\<lparr>app_root_bg := c\<rparr>)"
    using CalibrationApp_update_background_finite[of ?app2 0 0] by auto
  show ?thesis
    using assms c by (intro exI[of _ c]) (simp add: on_next_def Let_def case_prod_beta)
qed

lemma on_next_last:
  assumes "\<not> current_index app + 1 < length brightness_levels"
  shows "on_next float_repr (app, fs) =
           (None,
            app\<lparr>calibration_values :=
                  AList.update (current_level app)
                    \<lparr>white_balance = current_wb app, tint = current_tint app\<rparr>
                    (calibration_values app),
                current_index := current_index app + 1,
                overlay_destroyed := True,
                finish_callback_arg := Some (AList.update (current_level app)
                    \<lparr>white_balance = current_wb app, tint = current_tint app\<rparr>
                    (calibration_values app))\<rparr>,
            save_calibration_data float_repr
              (AList.update (current_level app)
                    \<lparr>white_balance = current_wb app, tint = current_tint app\<rparr>
                    (calibration_values app)) fs)"
  using assms by (simp add: on_next_def Let_def)

lemma slider_steps:
  "\<exists>app'. wizard_step r (WbChange val) (app, fs) = (app', fs)
      \<and> calibration_values app' = calibration_values app
      \<and> current_index app' = current_index app
      \<and> current_level app' = current_level app
      \<and> overlay_destroyed app' = overlay_destroyed app
      \<and> current_tint app' = current_tint app
      \<and> current_wb app' = (case py_float val of Some v \<Rightarrow> v | None \<Rightarrow> Fin 0)"
  "\<exists>app'. wizard_step r (TintChange val) (app, fs) = (app', fs)
      \<and> calibration_values app' = calibration_values app
      \<and> current_index app' = current_index app
      \<and> current_level app' = current_level app
      \<and> overlay_destroyed app' = overlay_destroyed app
      \<and> current_wb app' = current_wb app
      \<and> current_tint app' = (case py_float val of Some v \<Rightarrow> v | None \<Rightarrow> Fin 0)"
  using CalibrationApp_update_background_frame[of
          "app\<lparr>current_wb := (case py_float val of Some v \<Rightarrow> v | None \<Rightarrow> Fin 0)\<rparr>"]
        CalibrationApp_update_background_frame[of
          "app\<lparr>current_tint := (case py_float val of Some v \<Rightarrow> v | None \<Rightarrow> Fin 0)\<rparr>"]
  by (auto simp: on_wb_change_def on_tint_change_def)

lemma CalibrationApp_init_state:
  "calibration_values (CalibrationApp_init bg) = []
   \<and> current_index (CalibrationApp_init bg) = 0
   \<and> current_level (CalibrationApp_init bg) = ''black''
   \<and> current_wb (CalibrationApp_init bg) = Fin 0
   \<and> current_tint (CalibrationApp_init bg) = Fin 0
   \<and> \<not> overlay_destroyed (CalibrationApp_init bg)"
  by (simp add: CalibrationApp_init_def brightness_levels_def
      CalibrationApp_update_background_def compute_color_Fin)

lemma in_range_zero: "in_range (Fin 0)"
  by (simp add: in_range_def)

lemma wizard_step_range:
  assumes ev: "slider_in_range ev"
    and inv: "in_range (current_wb app) \<and> in_range (current_tint app)
              \<and> list_all calib_in_range (map snd (calibration_values app))"
  shows "in_range (current_wb (fst (wizard_step r ev (app, fs))))
         \<and> in_range (current_tint (fst (wizard_step r ev (app, fs))))
         \<and> list_all calib_in_range (map snd (calibration_values (fst (wizard_step r ev (app, fs)))))"
proof (cases ev)
  case (WbChange val)
  obtain app' where "wizard_step r (WbChange val) (app, fs) = (app', fs)"
    and "calibration_values app' = calibration_values app"
    and "current_tint app' = current_tint app"
    and "current_wb app' = (case py_float val of Some v \<Rightarrow> v | None \<Rightarrow> Fin 0)"
    using slider_steps(1)[of r val app fs] by blast
  then show ?thesis
    using ev inv WbChange by (auto simp: in_range_zero split: option.splits)
next
  case (TintChange val)
  obtain app' where "wizard_step r (TintChange val) (app, fs) = (app', fs)"
    and "calibration_values app' = calibration_values app"
    and "current_wb app' = current_wb app"
    and "current_tint app' = (case py_float val of Some v \<Rightarrow> v | None \<Rightarrow> Fin 0)"
    using slider_steps(2)[of r val app fs] by blast
  then show ?thesis
    using ev inv TintChange by (auto simp: in_range_zero split: option.splits)
next
  case Next
  have rec: "list_all calib_in_range
               (map snd (AList.update (current_level app)
                  \<lparr>white_balance = current_wb app, tint = current_tint app\<rparr>
                  (calibration_values app)))"
    using inv by (intro list_all_update) (simp_all add: calib_in_range_def)
  show ?thesis
  proof (cases "current_index app + 1 < length brightness_levels")
    case True
    from on_next_not_last[OF True, of r fs] obtain c where
      "on_next r (app, fs) =
           (None,
            app\<lparr>calibration_values :=
                  AList.update (current_level app)
                    \<lparr>white_balance = current_wb app, tint = current_tint app\<rparr>
                    (calibration_values app),
                current_index := current_index app + 1,
                current_level := fst (brightness_levels ! (current_index app + 1)),
                current_base := snd (brightness_levels ! (current_index app + 1)),
                current_wb := Fin 0, current_tint := Fin 0,
                wb_scale := Fin 0, tint_scale := Fin 0,
                overlay_title := ''Calibration: ''
                   @ capitalize (fst (brightness_levels ! (current_index app + 1))),
                app_root_bg := c\<rparr>,
            fs)"
      by blast
    then show ?thesis
      using rec Next by (simp add: in_range_zero)
  next
    case False
    from on_next_last[OF False, of r fs] show ?thesis
      using rec inv Next by simp
  qed
qed

lemma wizard_run_range:
  assumes "list_all slider_in_range evs"
    and "in_range (current_wb app) \<and> in_range (current_tint app)
         \<and> list_all calib_in_range (map snd (calibration_values app))"
  shows "list_all calib_in_range (map snd (calibration_values (fst (wizard_run r evs (app, fs)))))"
  using assms
proof (induction evs arbitrary: app fs)
  case Nil
  then show ?case by simp
next
  case (Cons ev evs)
  obtain app' fs' where st: "wizard_step r ev (app, fs) = (app', fs')"
    by (cases "wizard_step r ev (app, fs)")
  have "in_range (current_wb app') \<and> in_range (current_tint app')
        \<and> list_all calib_in_range (map snd (calibration_values app'))"
    using wizard_step_range[of ev app r fs] Cons.prems st by simp
  with Cons.IH[of app' fs'] Cons.prems(1) st show ?case
    by simp
qed

text \<open>
  C8. \<open>load_calibration_data\<close> checks no range: a calibration file may hold any number,
  and the record read from it holds that number.
\<close>

theorem load_calibration_data_out_of_range:
  "fst (load_calibration_data
          \<lparr>files = Map.empty(CALIBRATION_FILE \<mapsto> ''gray:100,0\<newline>''), writes = []\<rparr>)
     = [(''gray'', \<lparr>white_balance = Fin 100, tint = Fin 0\<rparr>)]
   \<and> \<not> list_all calib_in_range
         (map snd (fst (load_calibration_data
            \<lparr>files = Map.empty(CALIBRATION_FILE \<mapsto> ''gray:100,0\<newline>''), writes = []\<rparr>)))"
  by (simp add: load_calibration_data_def text_lines_def parse_calibration_line_def py_float_eval
      calib_in_range_def in_range_def)

text \<open>
  C8, amended. Every calibration record that the calibration stage holds, after any
  sequence of slider movements and presses of \<open>Next\<close> in which the sliders report values
  between -50 and 50, has its white balance and its tint between -50 and 50.
\<close>

theorem wizard_records_in_range:
  assumes "list_all slider_in_range evs"
  shows "list_all calib_in_range
           (map snd (calibration_values
              (fst (wizard_run float_repr evs (CalibrationApp_init bg, fs)))))"
  using assms CalibrationApp_init_state[of bg]
  by (intro wizard_run_range) (simp_all add: in_range_zero)

theorem wizard_records_in_range_witness:
  "list_all slider_in_range [WbChange ''12.5'', TintChange ''-50.0'', Next, WbChange ''0.3'', Next]
   \<and> calibration_values
        (fst (wizard_run (\<lambda>x. ''?'')
           [WbChange ''12.5'', TintChange ''-50.0'', Next, WbChange ''0.3'', Next]
           (CalibrationApp_init ''#ffffff'', \<lparr>files = Map.empty, writes = []\<rparr>)))
      = [(''black'', \<lparr>white_balance = Fin 12.5, tint = Fin (- 50)\<rparr>),
         (''dark gray'', \<lparr>white_balance = Fin 0.3, tint = Fin 0\<rparr>)]
   \<and> list_all calib_in_range
        [\<lparr>white_balance = Fin 12.5, tint = Fin (- 50)\<rparr>, \<lparr>white_balance = Fin 0.3, tint = Fin 0\<rparr>]"
proof -
  have h: "list_all slider_in_range
             [WbChange ''12.5'', TintChange ''-50.0'', Next, WbChange ''0.3'', Next]"
    by (simp add: py_float_eval in_range_def)
  have run: "calibration_values
        (fst (wizard_run (\<lambda>x. ''?'')
           [WbChange ''12.5'', TintChange ''-50.0'', Next, WbChange ''0.3'', Next]
           (CalibrationApp_init ''#ffffff'', \<lparr>files = Map.empty, writes = []\<rparr>)))
      = [(''black'', \<lparr>white_balance = Fin 12.5, tint = Fin (- 50)\<rparr>),
         (''dark gray'', \<lparr>white_balance = Fin 0.3, tint = Fin 0\<rparr>)]"
    by (simp add: CalibrationApp_init_def brightness_levels_def on_wb_change_def
        on_tint_change_def on_next_def Let_def CalibrationApp_update_background_def
        compute_color_Fin py_float_eval)
  from wizard_records_in_range[OF h, of "\<lambda>x. ''?''" "''#ffffff''" "\<lparr>files = Map.empty, writes = []\<rparr>"]
  show ?thesis
    using h run by simp
qed

text \<open>The state of the calibration stage after a sequence of events with at most five
  presses of \<open>Next\<close>.\<close>

lemma wizard_run_state:
  assumes "length (filter (\<lambda>ev. ev = Next) evs) \<le> 5"
  shows "(let n = length (filter (\<lambda>ev. ev = Next) evs);
              w = wizard_run float_repr evs (CalibrationApp_init bg, fs)
          in writes (snd w) = writes fs @
               (if n = 5
                then [(CALIBRATION_FILE, calibration_text float_repr (calibration_values (fst w)))]
                else [])
             \<and> map fst (calibration_values (fst w))
                 = take n [''black'', ''dark gray'', ''gray'', ''light gray'', ''white'']
             \<and> current_index (fst w) = n
             \<and> (n < 5 \<longrightarrow> current_level (fst w) = fst (brightness_levels ! n)))"
  using assms
proof (induction evs rule: rev_induct)
  case Nil
  then show ?case
    using CalibrationApp_init_state[of bg] by (simp add: brightness_levels_def)
next
  case (snoc ev evs)
  define n where "n = length (filter (\<lambda>ev. ev = Next) evs)"
  obtain app fs' where w: "wizard_run float_repr evs (CalibrationApp_init bg, fs) = (app, fs')"
    by (cases "wizard_run float_repr evs (CalibrationApp_init bg, fs)")
  have n5: "n \<le> 5"
    using snoc.prems by (simp add: n_def split: if_splits)
  have ih: "writes fs' = writes fs @
               (if n = 5
                then [(CALIBRATION_FILE, calibration_text float_repr (calibration_values app))]
                else [])"
      "map fst (calibration_values app)
         = take n [''black'', ''dark gray'', ''gray'', ''light gray'', ''white'']"
      "current_index app = n"
      "n < 5 \<Longrightarrow> current_level app = fst (brightness_levels ! n)"
    using snoc.IH n5 w by (simp_all add: n_def Let_def)
  show ?case
  proof (cases ev)
    case (WbChange val)
    obtain app' where "wizard_step float_repr (WbChange val) (app, fs') = (app', fs')"
      and "calibration_values app' = calibration_values app"
      and "current_index app' = current_index app"
      and "current_level app' = current_level app"
      using slider_steps(1)[of float_repr val app fs'] by blast
    then show ?thesis
      using ih w WbChange by (simp add: wizard_run_append n_def Let_def)
  next
    case (TintChange val)
    obtain app' where "wizard_step float_repr (TintChange val) (app, fs') = (app', fs')"
      and "calibration_values app' = calibration_values app"
      and "current_index app' = current_index app"
      and "current_level app' = current_level app"
      using slider_steps(2)[of float_repr val app fs'] by blast
    then show ?thesis
      using ih w TintChange by (simp add: wizard_run_append n_def Let_def)
  next
    case Next
    have n4: "n < 5"
      using snoc.prems Next by (simp add: n_def)
    then have cases_n: "n = 0 \<or> n = 1 \<or> n = 2 \<or> n = 3 \<or> n = 4"
      by arith
    have cnt: "length (filter (\<lambda>ev. ev = Next) (evs @ [ev])) = n + 1"
      using Next by (simp add: n_def)
    have keys: "map fst (AList.update (current_level app)
                  \<lparr>white_balance = current_wb app, tint = current_tint app\<rparr>
                  (calibration_values app))
                = take (n + 1) [''black'', ''dark gray'', ''gray'', ''light gray'', ''white'']"
      using cases_n ih(2) ih(4)[OF n4]
      by (auto simp: update_keys brightness_levels_def)
    show ?thesis
    proof (cases "n + 1 < 5")
      case True
      then have "current_index app + 1 < length brightness_levels"
        using ih(3) by (simp add: brightness_levels_def)
      from on_next_not_last[OF this, of float_repr fs'] obtain c where
        "on_next float_repr (app, fs') =
           (None,
            app\<lparr>calibration_values :=
                  AList.update (current_level app)
                    \<lparr>white_balance = current_wb app, tint = current_tint app\<rparr>
                    (calibration_values app),
                current_index := current_index app + 1,
                current_level := fst (brightness_levels ! (current_index app + 1)),
                current_base := snd (brightness_levels ! (current_index app + 1)),
                current_wb := Fin 0, current_tint := Fin 0,
                wb_scale := Fin 0, tint_scale := Fin 0,
                overlay_title := ''Calibration: ''
                   @ capitalize (fst (brightness_levels ! (current_index app + 1))),
                app_root_bg := c\<rparr>,
            fs')"
        by blast
      then show ?thesis
        using True ih(1) ih(3) keys w Next cnt
        by (simp add: wizard_run_append Let_def del: take_Suc_Cons)
    next
      case False
      then have n_eq: "n = 4"
        using n4 by simp
      then have "\<not> current_index app + 1 < length brightness_levels"
        using ih(3) by (simp add: brightness_levels_def)
      from on_next_last[OF this, of float_repr fs'] show ?thesis
        using n_eq ih(1) ih(3) keys w Next cnt
        by (simp add: wizard_run_append Let_def save_calibration_data_def write_file_def
            del: take_Suc_Cons)
    qed
  qed
qed

text \<open>
  C10. A press of \<open>Next\<close> before the last level records the current pair of corrections
  under the name of the current level, writes no file, and sets both corrections and
  both sliders to zero. In a run of the calibration stage with \<open>n\<close> presses, \<open>n\<close> at most
  five, the calibration file has been written once if \<open>n\<close> is five and not at all
  otherwise, always with the text of the final dictionary; the dictionary holds the first
  \<open>n\<close> of the level names black, dark gray, gray, light gray, white, in this order.
\<close>

theorem wizard_next_invariant:
  assumes "length (filter (\<lambda>ev. ev = Next) evs) = n" and "n \<le> 5"
  shows "(let w = wizard_run float_repr evs (CalibrationApp_init bg, fs)
          in writes (snd w) = writes fs @
               (if n = 5
                then [(CALIBRATION_FILE, calibration_text float_repr (calibration_values (fst w)))]
                else [])
             \<and> map fst (calibration_values (fst w))
                 = take n [''black'', ''dark gray'', ''gray'', ''light gray'', ''white'']
             \<and> current_index (fst w) = n)
         \<and> (\<forall>app fs1. current_index app + 1 < length brightness_levels \<longrightarrow>
               (let (err, app', fs2) = on_next float_repr (app, fs1)
                in err = None \<and> fs2 = fs1
                   \<and> calibration_values app' =
                        AList.update (current_level app)
                          \<lparr>white_balance = current_wb app, tint = current_tint app\<rparr>
                          (calibration_values app)
                   \<and> current_wb app' = Fin 0 \<and> current_tint app' = Fin 0
                   \<and> wb_scale app' = Fin 0 \<and> tint_scale app' = Fin 0
                   \<and> current_index app' = current_index app + 1
                   \<and> current_level app' = fst (brightness_levels ! (current_index app + 1))))"
proof -
  have step: "let (err, app', fs2) = on_next float_repr (app, fs1)
                in err = None \<and> fs2 = fs1
                   \<and> calibration_values app' =
                        AList.update (current_level app)
                          \<lparr>white_balance = current_wb app, tint = current_tint app\<rparr>
                          (calibration_values app)
                   \<and> current_wb app' = Fin 0 \<and> current_tint app' = Fin 0
                   \<and> wb_scale app' = Fin 0 \<and> tint_scale app' = Fin 0
                   \<and> current_index app' = current_index app + 1
                   \<and> current_level app' = fst (brightness_levels ! (current_index app + 1))"
    if "current_index app + 1 < length brightness_levels" for app fs1
    using on_next_not_last[OF that, of float_repr fs1] by auto
  have run: "length (filter (\<lambda>ev. ev = Next) evs) \<le> 5"
    using assms by simp
  show ?thesis
    using wizard_run_state[OF run, of float_repr bg fs] assms(1) step
    by (simp add: Let_def)
qed

theorem wizard_next_invariant_witness:
  "(let evs = [WbChange ''1.5'', Next, TintChange ''-3'', Next, Next, Next, Next];
        w = wizard_run (\<lambda>x. ''?'') evs
              (CalibrationApp_init ''#ffffff'', \<lparr>files = Map.empty, writes = []\<rparr>)
    in length (filter (\<lambda>ev. ev = Next) evs) = 5
       \<and> writes (snd w) =
           [(CALIBRATION_FILE, ''black:?,?\<newline>dark gray:?,?\<newline>gray:?,?\<newline>light gray:?,?\<newline>white:?,?\<newline>'')]
       \<and> map fst (calibration_values (fst w))
           = [''black'', ''dark gray'', ''gray'', ''light gray'', ''white''])
   \<and> current_index (CalibrationApp_init ''#ffffff'') + 1 < length brightness_levels
   \<and> (let (err, app', fs2) = on_next (\<lambda>x. ''?'')
              (CalibrationApp_init ''#ffffff'', \<lparr>files = Map.empty, writes = []\<rparr>)
      in err = None \<and> writes fs2 = []
         \<and> calibration_values app' = [(''black'', \<lparr>white_balance = Fin 0, tint = Fin 0\<rparr>)]
         \<and> current_wb app' = Fin 0 \<and> current_tint app' = Fin 0
         \<and> wb_scale app' = Fin 0 \<and> tint_scale app' = Fin 0
         \<and> current_level app' = ''dark gray'')"
proof -
  define evs where "evs = [WbChange ''1.5'', Next, TintChange ''-3'', Next, Next, Next, Next]"
  define w where "w = wizard_run (\<lambda>x. ''?'') evs
              (CalibrationApp_init ''#ffffff'', \<lparr>files = Map.empty, writes = []\<rparr>)"
  have h: "length (filter (\<lambda>ev. ev = Next) evs) = 5"
    by (simp add: evs_def)
  from wizard_next_invariant[OF h, of "\<lambda>x. ''?''" "''#ffffff''" "\<lparr>files = Map.empty, writes = []\<rparr>"]
  have a: "writes (snd w) = [(CALIBRATION_FILE, calibration_text (\<lambda>x. ''?'') (calibration_values (fst w)))]"
    and b: "map fst (calibration_values (fst w))
           = [''black'', ''dark gray'', ''gray'', ''light gray'', ''white'']"
    by (simp_all add: w_def Let_def)
  have "calibration_text (\<lambda>x. ''?'') cv
          = concat (map (\<lambda>level. level @ '':?,?\<newline>'') (map fst cv))" for cv
    by (induction cv) (auto simp: calibration_text_def)
  with a b have "writes (snd w) =
           [(CALIBRATION_FILE, ''black:?,?\<newline>dark gray:?,?\<newline>gray:?,?\<newline>light gray:?,?\<newline>white:?,?\<newline>'')]"
    by simp
  with h b have first: "length (filter (\<lambda>ev. ev = Next) evs) = 5
       \<and> writes (snd w) =
           [(CALIBRATION_FILE, ''black:?,?\<newline>dark gray:?,?\<newline>gray:?,?\<newline>light gray:?,?\<newline>white:?,?\<newline>'')]
       \<and> map fst (calibration_values (fst w))
           = [''black'', ''dark gray'', ''gray'', ''light gray'', ''white'']"
    by simp
  have idx: "current_index (CalibrationApp_init ''#ffffff'') + 1 < length brightness_levels"
    using CalibrationApp_init_state[of "''#ffffff''"] by (simp add: brightness_levels_def)
  from wizard_next_invariant[OF h, of "\<lambda>x. ''?''" "''#ffffff''" "\<lparr>files = Map.empty, writes = []\<rparr>"]
  have "\<forall>app fs1. current_index app + 1 < length brightness_levels \<longrightarrow>
               (let (err, app', fs2) = on_next (\<lambda>x. ''?'') (app, fs1)
                in err = None \<and> fs2 = fs1
                   \<and> calibration_values app' =
                        AList.update (current_level app)
                          \<lparr>white_balance = current_wb app, tint = current_tint app\<rparr>
                          (calibration_values app)
                   \<and> current_wb app' = Fin 0 \<and> current_tint app' = Fin 0
                   \<and> wb_scale app' = Fin 0 \<and> tint_scale app' = Fin 0
                   \<and> current_index app' = current_index app + 1
                   \<and> current_level app' = fst (brightness_levels ! (current_index app + 1)))"
    by simp
  from this[rule_format, OF idx, of "\<lparr>files = Map.empty, writes = []\<rparr>"]
  have second: "let (err, app', fs2) = on_next (\<lambda>x. ''?'')
              (CalibrationApp_init ''#ffffff'', \<lparr>files = Map.empty, writes = []\<rparr>)
      in err = None \<and> writes fs2 = []
         \<and> calibration_values app' = [(''black'', \<lparr>white_balance = Fin 0, tint = Fin 0\<rparr>)]
         \<and> current_wb app' = Fin 0 \<and> current_tint app' = Fin 0
         \<and> wb_scale app' = Fin 0 \<and> tint_scale app' = Fin 0
         \<and> current_level app' = ''dark gray''"
    using CalibrationApp_init_state[of "''#ffffff''"]
    by (auto simp: brightness_levels_def)
  from first idx second show ?thesis
    by (simp add: evs_def w_def Let_def)
qed

section \<open>Printing a float with one decimal and reading it back\<close>

lemma digit_char_decimal:
  "d < 10 \<Longrightarrow> isdigit (digit_char d) \<and> digit_val (digit_char d) = d"
proof -
  assume "d < 10"
  then have "d = 0 \<or> d = 1 \<or> d = 2 \<or> d = 3 \<or> d = 4 \<or> d = 5 \<or> d = 6 \<or> d = 7 \<or> d = 8 \<or> d = 9"
    by arith
  then show ?thesis
    by (auto simp: digit_char_def isdigit_def digit_val_def)
qed

lemma digits_val_snoc: "digits_val (ds @ [c]) = 10 * digits_val ds + digit_val c"
  by (simp add: digits_val_def)

lemma digits_of_10:
  "list_all isdigit (digits_of 10 n) \<and> digits_of 10 n \<noteq> [] \<and> digits_val (digits_of 10 n) = n"
proof (induction n rule: less_induct)
  case (less n)
  show ?case
  proof (cases "n < 10")
    case True
    then show ?thesis
      using digit_char_decimal[of n] by (simp add: digits_val_def)
  next
    case False
    then have step: "digits_of 10 n = digits_of 10 (n div 10) @ [digit_char (n mod 10)]"
      by (subst digits_of.simps) simp
    have "n div 10 < n"
      using False by simp
    from less.IH[OF this] digit_char_decimal[of "n mod 10"] show ?thesis
      by (simp add: step digits_val_snoc del: digits_of.simps)
  qed
qed

lemma isdigit_chars:
  "isdigit c \<Longrightarrow> \<not> isspace c \<and> c \<noteq> CHR ''_'' \<and> c \<noteq> CHR ''-'' \<and> c \<noteq> CHR ''+'' \<and> c \<noteq> CHR ''|''
     \<and> c \<noteq> CHR ''.'' \<and> c \<noteq> CHR 0x0A \<and> lower_char c = c"
proof -
  assume "isdigit c"
  then consider "c = CHR ''0''" | "c = CHR ''1''" | "c = CHR ''2''" | "c = CHR ''3''"
    | "c = CHR ''4''" | "c = CHR ''5''" | "c = CHR ''6''" | "c = CHR ''7''"
    | "c = CHR ''8''" | "c = CHR ''9''"
    by (auto simp: isdigit_def)
  then show ?thesis
    by cases (simp_all add: isspace_def lower_char_def)
qed

lemma strip_id:
  "s \<noteq> [] \<Longrightarrow> \<not> isspace (hd s) \<Longrightarrow> \<not> isspace (last s) \<Longrightarrow> strip s = s"
proof -
  assume ne: "s \<noteq> []" and h: "\<not> isspace (hd s)" and l: "\<not> isspace (last s)"
  have a: "dropWhile isspace s = s"
    using ne h by (cases s) simp_all
  have b: "dropWhile isspace (rev s) = rev s"
    using ne l by (cases s rule: rev_cases) simp_all
  show ?thesis
    by (simp add: strip_def a b)
qed

lemma drop_underscores_none:
  "CHR ''_'' \<notin> set s \<Longrightarrow> prev \<noteq> Some CHR ''_'' \<Longrightarrow> drop_underscores prev s = Some s"
  by (induction s arbitrary: prev) auto

lemma takeWhile_digits:
  "list_all isdigit ds \<Longrightarrow> \<not> isdigit c \<Longrightarrow>
     takeWhile isdigit (ds @ c # r) = ds \<and> dropWhile isdigit (ds @ c # r) = c # r"
  by (induction ds) auto

text \<open>The text of digits, a point and one digit is read as the number it writes.\<close>

lemma parse_decimal_one_digit:
  assumes "list_all isdigit ds" and "ds \<noteq> []" and "isdigit d"
  shows "parse_decimal (ds @ CHR ''.'' # [d]) = Some (real (10 * digits_val ds + digit_val d) / 10)"
proof -
  have nd: "\<not> isdigit CHR ''.''"
    by (simp add: isdigit_def)
  from takeWhile_digits[OF assms(1) nd, of "[d]"] assms(2,3) show ?thesis
    by (simp add: parse_decimal_def Let_def parse_exponent_def scale10_def digits_val_snoc)
qed

lemma py_float_unsigned:
  assumes "list_all isdigit ds" and "ds \<noteq> []" and "isdigit d"
  shows "py_float (ds @ CHR ''.'' # [d]) = Some (Fin (real (10 * digits_val ds + digit_val d) / 10))"
    and "py_float (CHR ''-'' # ds @ CHR ''.'' # [d])
           = Some (Fin (- (real (10 * digits_val ds + digit_val d) / 10)))"
proof -
  let ?u = "ds @ CHR ''.'' # [d]"
  obtain c cs where ds: "ds = c # cs"
    using assms(2) by (cases ds) auto
  have c: "isdigit c"
    using assms(1) ds by simp
  have no_us: "CHR ''_'' \<notin> set ?u" "CHR ''_'' \<notin> set (CHR ''-'' # ?u)"
    using assms(1,3) isdigit_chars by (auto simp: list_all_iff)
  have st1: "strip ?u = ?u"
    using isdigit_chars[OF c] isdigit_chars[OF assms(3)] by (intro strip_id) (simp_all add: ds)
  have st2: "strip (CHR ''-'' # ?u) = CHR ''-'' # ?u"
    using isdigit_chars[OF assms(3)] by (intro strip_id) (simp_all add: isspace_def)
  have sign: "take_sign ?u = (False, ?u)"
    using isdigit_chars[OF c] by (simp add: ds)
  have low: "lower ?u \<noteq> ''inf''" "lower ?u \<noteq> ''infinity''" "lower ?u \<noteq> ''nan''"
    using isdigit_chars[OF c] c by (auto simp: ds lower_def isdigit_def)
  have du: "drop_underscores None ?u = Some ?u"
      "drop_underscores None (CHR ''-'' # ?u) = Some (CHR ''-'' # ?u)"
    using no_us by (simp_all only: drop_underscores_none option.simps not_False_eq_True)
  show "py_float ?u = Some (Fin (real (10 * digits_val ds + digit_val d) / 10))"
    unfolding py_float_def st1 du
    using low sign parse_decimal_one_digit[OF assms] by simp
  show "py_float (CHR ''-'' # ?u) = Some (Fin (- (real (10 * digits_val ds + digit_val d) / 10)))"
    unfolding py_float_def st2 du
    using low parse_decimal_one_digit[OF assms] by simp
qed

lemma py_float_format_1f: "py_float (format_1f v) = Some (one_decimal v)"
proof (cases v)
  case (Fin x)
  let ?t = "nat (py_round (\<bar>x\<bar> * 10))"
  have d: "list_all isdigit (digits_of 10 (?t div 10))" "digits_of 10 (?t div 10) \<noteq> []"
      "digits_val (digits_of 10 (?t div 10)) = ?t div 10"
    using digits_of_10[of "?t div 10"] by simp_all
  have m: "isdigit (digit_char (?t mod 10))" "digit_val (digit_char (?t mod 10)) = ?t mod 10"
    using digit_char_decimal[of "?t mod 10"] by simp_all
  have val: "10 * (?t div 10) + ?t mod 10 = ?t"
    by simp
  have "py_float (format_1f (Fin x)) =
          Some (Fin ((if x < 0 then - 1 else 1) * real ?t / 10))"
    using py_float_unsigned[OF d(1,2) m(1)] val
    by (simp only: format_1f.simps Let_def d(3) m(2) append_Cons append_Nil split: if_split)
       (simp del: digits_of.simps)
  then show ?thesis
    by (simp only: Fin one_decimal.simps)
next
  case PInf
  then show ?thesis by (simp add: py_float_eval)
next
  case NInf
  then show ?thesis by (simp add: py_float_eval)
next
  case NaN
  then show ?thesis by (simp add: py_float_eval)
qed

section \<open>Saving the selected profile\<close>

lemma is_record_of_blank: "is_blank line \<Longrightarrow> \<not> is_record_of name line"
  by (simp add: is_blank_def is_record_of_def profile_fields_def)

lemma new_profile_line_frame:
  "new_profile_line name (st\<lparr>phone_profiles := ps\<rparr>) = new_profile_line name st"
  by (simp add: new_profile_line_def)

lemma saved_record_frame: "saved_record (st\<lparr>phone_profiles := ps\<rparr>) = saved_record st"
  by (simp add: saved_record_def)

lemma profile_overwritten:
  "p\<lparr>temperature := a, wb_correction := b, tint_correction := c\<rparr>
     = \<lparr>temperature = a, wb_correction = b, tint_correction = c\<rparr>"
  by (cases p) simp

text \<open>One turn of the loop of \<open>on_save_changes\<close>, by the kind of the line.\<close>

lemma save_loop_blank:
  "is_blank line \<Longrightarrow> save_loop (line # lines) acc st = save_loop lines acc st"
  by (simp add: is_blank_def)

lemma save_loop_other:
  "\<not> is_blank line \<Longrightarrow> \<not> is_record_of (phone_profile_var st) line \<Longrightarrow>
   save_loop (line # lines) acc st = save_loop lines (acc @ [line]) st"
  by (auto simp: is_blank_def is_record_of_def profile_fields_def Let_def)

lemma save_loop_record:
  assumes "is_record_of (phone_profile_var st) line"
    and "map_of (phone_profiles st) (phone_profile_var st) = Some p"
  shows "save_loop (line # lines) acc st =
           save_loop lines (acc @ [new_profile_line (phone_profile_var st) st])
             (st\<lparr>phone_profiles :=
                  AList.update (phone_profile_var st) (saved_record st) (phone_profiles st)\<rparr>)"
proof -
  have nb: "strip line \<noteq> []"
    using assms(1) is_record_of_blank[of line] by (auto simp: is_blank_def)
  have len: "4 \<le> length (split CHR ''|'' (strip line))"
    and nm: "map strip (split CHR ''|'' (strip line)) ! 0 = phone_profile_var st"
    using assms(1) by (simp_all add: is_record_of_def profile_fields_def del: nth_map)
  from len have "0 < length (split CHR ''|'' (strip line))"
    by linarith
  then have "map strip (split CHR ''|'' (strip line)) ! 0 = strip (split CHR ''|'' (strip line) ! 0)"
    by (rule nth_map)
  with len nm have f: "\<not> length (split CHR ''|'' (strip line)) < 4"
      "map strip (split CHR ''|'' (strip line)) ! 0 = phone_profile_var st"
      "strip (split CHR ''|'' (strip line) ! 0) = phone_profile_var st"
    by simp_all
  show ?thesis
    using nb f assms(2)
    by (simp add: Let_def py_float_format_1f saved_record_def profile_overwritten
        del: format_1f.simps)
qed

lemma save_loop_missing:
  assumes "is_record_of (phone_profile_var st) line"
    and "map_of (phone_profiles st) (phone_profile_var st) = None"
  shows "save_loop (line # lines) acc st = (Inl KeyError, st)"
proof -
  have nb: "strip line \<noteq> []"
    using assms(1) is_record_of_blank[of line] by (auto simp: is_blank_def)
  have len: "4 \<le> length (split CHR ''|'' (strip line))"
    and nm: "map strip (split CHR ''|'' (strip line)) ! 0 = phone_profile_var st"
    using assms(1) by (simp_all add: is_record_of_def profile_fields_def del: nth_map)
  from len have "0 < length (split CHR ''|'' (strip line))"
    by linarith
  then have "map strip (split CHR ''|'' (strip line)) ! 0 = strip (split CHR ''|'' (strip line) ! 0)"
    by (rule nth_map)
  with len nm have f: "\<not> length (split CHR ''|'' (strip line)) < 4"
      "map strip (split CHR ''|'' (strip line)) ! 0 = phone_profile_var st"
      "strip (split CHR ''|'' (strip line) ! 0) = phone_profile_var st"
    by simp_all
  show ?thesis
    using nb f assms(2) by (simp add: Let_def)
qed

text \<open>The whole loop when the dictionary holds the selected profile: blank lines are
  left out, the records of the selected profile are replaced, the other lines are kept.\<close>

lemma save_loop_found:
  assumes "map_of (phone_profiles st) (phone_profile_var st) \<noteq> None"
  shows "save_loop lines acc st =
           (Inr (acc @ map (\<lambda>line. if is_record_of (phone_profile_var st) line
                                   then new_profile_line (phone_profile_var st) st else line)
                         (filter (\<lambda>line. \<not> is_blank line) lines)),
            if list_ex (is_record_of (phone_profile_var st)) lines
            then st\<lparr>phone_profiles :=
                      AList.update (phone_profile_var st) (saved_record st) (phone_profiles st)\<rparr>
            else st)"
  using assms
proof (induction lines arbitrary: acc st)
  case Nil
  then show ?case by simp
next
  case (Cons line lines)
  let ?sel = "phone_profile_var st"
  show ?case
  proof (cases "is_blank line")
    case True
    then show ?thesis
      using Cons.IH[OF Cons.prems, of acc] is_record_of_blank[OF True, of ?sel]
      by (simp add: save_loop_blank del: save_loop.simps)
  next
    case nb: False
    show ?thesis
    proof (cases "is_record_of ?sel line")
      case False
      then show ?thesis
        using Cons.IH[OF Cons.prems, of "acc @ [line]"] nb
        by (simp add: save_loop_other del: save_loop.simps)
    next
      case True
      obtain p where p: "map_of (phone_profiles st) ?sel = Some p"
        using Cons.prems by auto
      let ?st' = "st\<lparr>phone_profiles := AList.update ?sel (saved_record st) (phone_profiles st)\<rparr>"
      have held: "map_of (phone_profiles ?st') (phone_profile_var ?st') \<noteq> None"
        by (simp add: update_conv')
      show ?thesis
        using Cons.IH[OF held, of "acc @ [new_profile_line ?sel st]"] nb True
        by (simp add: save_loop_record[OF True p] new_profile_line_frame saved_record_frame
            del: save_loop.simps)
    qed
  qed
qed

text \<open>When the dictionary does not hold the selected profile, the first record of that name
  in the file ends the loop with \<^verbatim>\<open>KeyError\<close>.\<close>

lemma save_loop_not_found:
  assumes "map_of (phone_profiles st) (phone_profile_var st) = None"
  shows "save_loop lines acc st =
           (if list_ex (is_record_of (phone_profile_var st)) lines then (Inl KeyError, st)
            else (Inr (acc @ filter (\<lambda>line. \<not> is_blank line) lines), st))"
  using assms
proof (induction lines arbitrary: acc)
  case Nil
  then show ?case by simp
next
  case (Cons line lines)
  show ?case
  proof (cases "is_blank line")
    case True
    then show ?thesis
      using Cons.IH[OF Cons.prems, of acc] is_record_of_blank[OF True, of "phone_profile_var st"]
      by (simp add: save_loop_blank del: save_loop.simps)
  next
    case nb: False
    show ?thesis
    proof (cases "is_record_of (phone_profile_var st) line")
      case False
      then show ?thesis
        using Cons.IH[OF Cons.prems, of "acc @ [line]"] nb
        by (simp add: save_loop_other del: save_loop.simps)
    next
      case True
      then show ?thesis
        by (simp add: save_loop_missing[OF True Cons.prems] del: save_loop.simps)
    qed
  qed
qed

text \<open>
  C9. The file of a concrete run has a blank line between two records; after
  \<open>on_save_changes\<close> the blank line is gone.
\<close>

theorem on_save_changes_drops_blank_line:
  "(let st = \<lparr>calibration_data = [], test_color_var = ''Gray'', phone_file_var = ''phones.txt'',
              phone_profile_var = ''A'', phone_temp_var = ''6500'',
              user_wb_var = Fin 1, user_tint_var = Fin 2,
              phone_profiles =
                [(''A'', \<lparr>temperature = ''6500'', wb_correction = Fin 0, tint_correction = Fin 0\<rparr>),
                 (''B'', \<lparr>temperature = ''5000'', wb_correction = Fin 3, tint_correction = Fin 4\<rparr>)],
              root_bg = ''#000000''\<rparr>;
        old = ''A | 6500 | 0.0 | 0.0\<newline>\<newline>B | 5000 | 3.0 | 4.0\<newline>'';
        fs = \<lparr>files = Map.empty(''CCT_Settings/phones.txt'' \<mapsto> old), writes = []\<rparr>
    in text_lines old = [''A | 6500 | 0.0 | 0.0\<newline>'', ''\<newline>'', ''B | 5000 | 3.0 | 4.0\<newline>'']
       \<and> map_option text_lines (files (snd (snd (on_save_changes (st, fs)))) ''CCT_Settings/phones.txt'')
           = Some [''A | 6500 | 1.0 | 2.0\<newline>'', ''B | 5000 | 3.0 | 4.0\<newline>''])"
proof -
  define st where "st = \<lparr>calibration_data = [], test_color_var = ''Gray'', phone_file_var = ''phones.txt'',
              phone_profile_var = ''A'', phone_temp_var = ''6500'',
              user_wb_var = Fin 1, user_tint_var = Fin 2,
              phone_profiles =
                [(''A'', \<lparr>temperature = ''6500'', wb_correction = Fin 0, tint_correction = Fin 0\<rparr>),
                 (''B'', \<lparr>temperature = ''5000'', wb_correction = Fin 3, tint_correction = Fin 4\<rparr>)],
              root_bg = ''#000000''\<rparr>"
  have held: "map_of (phone_profiles st) (phone_profile_var st) \<noteq> None"
    by (simp add: st_def)
  have fmt: "format_1f (Fin 1) = ''1.0''" "format_1f (Fin 2) = ''2.0''"
    by (simp_all add: py_round_numeral digit_char_def)
  have rd: "text_lines ''A | 6500 | 0.0 | 0.0\<newline>\<newline>B | 5000 | 3.0 | 4.0\<newline>''
             = [''A | 6500 | 0.0 | 0.0\<newline>'', ''\<newline>'', ''B | 5000 | 3.0 | 4.0\<newline>'']"
    by (simp add: text_lines_def)
  have rd': "text_lines ''A | 6500 | 1.0 | 2.0\<newline>B | 5000 | 3.0 | 4.0\<newline>''
             = [''A | 6500 | 1.0 | 2.0\<newline>'', ''B | 5000 | 3.0 | 4.0\<newline>'']"
    by (simp add: text_lines_def)
  have kinds: "is_blank ''\<newline>''" "\<not> is_blank ''A | 6500 | 0.0 | 0.0\<newline>''"
      "\<not> is_blank ''B | 5000 | 3.0 | 4.0\<newline>''"
      "is_record_of ''A'' ''A | 6500 | 0.0 | 0.0\<newline>''"
      "\<not> is_record_of ''A'' ''B | 5000 | 3.0 | 4.0\<newline>''"
    by (simp_all add: is_blank_def is_record_of_def profile_fields_def strip_def isspace_def)
  have line: "new_profile_line ''A'' st = ''A | 6500 | 1.0 | 2.0\<newline>''"
    unfolding new_profile_line_def by (simp add: st_def fmt strip_def isspace_def del: format_1f.simps)
  have sel: "phone_profile_var st = ''A''" "phone_file_var st = ''phones.txt''"
    by (simp_all add: st_def)
  have "map_option text_lines
          (files (snd (snd (on_save_changes
             (st, \<lparr>files = Map.empty(''CCT_Settings/phones.txt'' \<mapsto>
                       ''A | 6500 | 0.0 | 0.0\<newline>\<newline>B | 5000 | 3.0 | 4.0\<newline>''), writes = []\<rparr>))))
             ''CCT_Settings/phones.txt'')
           = Some [''A | 6500 | 1.0 | 2.0\<newline>'', ''B | 5000 | 3.0 | 4.0\<newline>'']"
    unfolding on_save_changes_def
    by (simp add: Let_def sel path_join_def CCT_SETTINGS_DIR_def rd save_loop_found[OF held]
        kinds line write_file_def del: save_loop.simps)
       (simp add: sel kinds line rd')
  with rd show ?thesis
    unfolding st_def Let_def by simp
qed

text \<open>
  C9, amended. With a profile file selected and the selected profile held by the
  dictionary, \<open>on_save_changes\<close> raises nothing and writes the file of the selected name
  again: the lines that are records of the selected profile (four fields or more, the
  first one its name) replaced by the line of the current entry and slider values, the
  blank lines left out, and every other line as it was, in the same order. No other file
  is written.
\<close>

theorem on_save_changes_frame:
  assumes "phone_file_var st \<noteq> ''''" and "phone_file_var st \<noteq> ''No files found''"
    and "map_of (phone_profiles st) (phone_profile_var st) = Some p"
  shows "on_save_changes (st, fs) =
           (let filepath = path_join CCT_SETTINGS_DIR (phone_file_var st);
                lines = (case files fs filepath of Some text \<Rightarrow> text_lines text | None \<Rightarrow> []);
                name = phone_profile_var st
            in (None,
                if list_ex (is_record_of name) lines
                then st\<lparr>phone_profiles := AList.update name (saved_record st) (phone_profiles st)\<rparr>
                else st,
                write_file filepath
                  (concat (map (\<lambda>line. if is_record_of name line
                                        then new_profile_line name st else line)
                               (filter (\<lambda>line. \<not> is_blank line) lines)))
                  fs))"
proof -
  have held: "map_of (phone_profiles st) (phone_profile_var st) \<noteq> None"
    using assms(3) by simp
  show ?thesis
    using assms(1,2) by (simp add: on_save_changes_def Let_def save_loop_found[OF held])
qed

theorem on_save_changes_frame_witness:
  "(let st = \<lparr>calibration_data = [], test_color_var = ''Gray'', phone_file_var = ''phones.txt'',
              phone_profile_var = ''A'', phone_temp_var = '' 7000 '',
              user_wb_var = Fin 12.34, user_tint_var = Fin (- 0.5),
              phone_profiles =
                [(''A'', \<lparr>temperature = ''6500'', wb_correction = Fin 0, tint_correction = Fin 0\<rparr>),
                 (''B'', \<lparr>temperature = ''5000'', wb_correction = Fin 3, tint_correction = Fin 4\<rparr>)],
              root_bg = ''#000000''\<rparr>;
        fs = \<lparr>files = Map.empty(''CCT_Settings/phones.txt'' \<mapsto>
                     ''A | 6500 | 0.0 | 0.0\<newline>note\<newline>B | 5000 | 3.0 | 4.0\<newline>''),
              writes = []\<rparr>;
        new = ''A | 7000 | 12.3 | -0.5\<newline>note\<newline>B | 5000 | 3.0 | 4.0\<newline>''
    in phone_file_var st \<noteq> '''' \<and> phone_file_var st \<noteq> ''No files found''
       \<and> map_of (phone_profiles st) (phone_profile_var st)
           = Some \<lparr>temperature = ''6500'', wb_correction = Fin 0, tint_correction = Fin 0\<rparr>
       \<and> on_save_changes (st, fs) =
           (None,
            st\<lparr>phone_profiles :=
                 [(''A'', \<lparr>temperature = ''7000'', wb_correction = Fin 12.3,
                           tint_correction = Fin (- 0.5)\<rparr>),
                  (''B'', \<lparr>temperature = ''5000'', wb_correction = Fin 3, tint_correction = Fin 4\<rparr>)]\<rparr>,
            \<lparr>files = Map.empty(''CCT_Settings/phones.txt'' \<mapsto> new),
             writes = [(''CCT_Settings/phones.txt'', new)]\<rparr>))"
proof -
  define st where "st = \<lparr>calibration_data = [], test_color_var = ''Gray'', phone_file_var = ''phones.txt'',
              phone_profile_var = ''A'', phone_temp_var = '' 7000 '',
              user_wb_var = Fin 12.34, user_tint_var = Fin (- 0.5),
              phone_profiles =
                [(''A'', \<lparr>temperature = ''6500'', wb_correction = Fin 0, tint_correction = Fin 0\<rparr>),
                 (''B'', \<lparr>temperature = ''5000'', wb_correction = Fin 3, tint_correction = Fin 4\<rparr>)],
              root_bg = ''#000000''\<rparr>"
  define fs where "fs = \<lparr>files = Map.empty(''CCT_Settings/phones.txt'' \<mapsto>
                     ''A | 6500 | 0.0 | 0.0\<newline>note\<newline>B | 5000 | 3.0 | 4.0\<newline>''),
              writes = []\<rparr>"
  have h1: "phone_file_var st \<noteq> ''''" and h2: "phone_file_var st \<noteq> ''No files found''"
    and h3: "map_of (phone_profiles st) (phone_profile_var st)
           = Some \<lparr>temperature = ''6500'', wb_correction = Fin 0, tint_correction = Fin 0\<rparr>"
    by (simp_all add: st_def)
  have rd: "text_lines ''A | 6500 | 0.0 | 0.0\<newline>note\<newline>B | 5000 | 3.0 | 4.0\<newline>''
             = [''A | 6500 | 0.0 | 0.0\<newline>'', ''note\<newline>'', ''B | 5000 | 3.0 | 4.0\<newline>'']"
    by (simp add: text_lines_def)
  have kinds: "\<not> is_blank ''note\<newline>''" "\<not> is_blank ''A | 6500 | 0.0 | 0.0\<newline>''"
      "\<not> is_blank ''B | 5000 | 3.0 | 4.0\<newline>''"
      "is_record_of ''A'' ''A | 6500 | 0.0 | 0.0\<newline>''"
      "\<not> is_record_of ''A'' ''B | 5000 | 3.0 | 4.0\<newline>''"
      "\<not> is_record_of ''A'' ''note\<newline>''"
    by (simp_all add: is_blank_def is_record_of_def profile_fields_def strip_def isspace_def)
  have rnd: "nat (py_round (\<bar>12.34\<bar> * 10)) = 123" "nat (py_round (\<bar>- 0.5\<bar> * 10)) = 5"
    by (simp_all add: py_round_def)
  have fmt: "format_1f (Fin 12.34) = ''12.3''" "format_1f (Fin (- 0.5)) = ''-0.5''"
    using rnd by (simp_all add: digit_char_def)
  have line: "new_profile_line ''A'' st = ''A | 7000 | 12.3 | -0.5\<newline>''"
    unfolding new_profile_line_def
    using fmt by (simp add: st_def strip_def isspace_def del: format_1f.simps)
  have saved: "saved_record st
                 = \<lparr>temperature = ''7000'', wb_correction = Fin 12.3, tint_correction = Fin (- 0.5)\<rparr>"
    using rnd by (simp add: saved_record_def st_def strip_def isspace_def)
  have sel: "phone_profile_var st = ''A''" "phone_file_var st = ''phones.txt''"
    by (simp_all add: st_def)
  have "on_save_changes (st, fs) =
           (None,
            st\<lparr>phone_profiles :=
                 [(''A'', \<lparr>temperature = ''7000'', wb_correction = Fin 12.3,
                           tint_correction = Fin (- 0.5)\<rparr>),
                  (''B'', \<lparr>temperature = ''5000'', wb_correction = Fin 3, tint_correction = Fin 4\<rparr>)]\<rparr>,
            \<lparr>files = Map.empty(''CCT_Settings/phones.txt'' \<mapsto>
                 ''A | 7000 | 12.3 | -0.5\<newline>note\<newline>B | 5000 | 3.0 | 4.0\<newline>''),
             writes = [(''CCT_Settings/phones.txt'',
                 ''A | 7000 | 12.3 | -0.5\<newline>note\<newline>B | 5000 | 3.0 | 4.0\<newline>'')]\<rparr>)"
    unfolding on_save_changes_frame[OF h1 h2 h3, of fs]
    by (simp add: Let_def sel path_join_def CCT_SETTINGS_DIR_def fs_def rd kinds line saved
        write_file_def)
       (simp add: st_def)
  with h1 h2 h3 show ?thesis
    unfolding st_def fs_def Let_def by simp
qed

section \<open>Lines and fields\<close>

lemma split_no_sep: "sep \<notin> set s \<Longrightarrow> split sep s = [s]"
  by (induction s) auto

lemma split_append: "sep \<notin> set a \<Longrightarrow> split sep (a @ sep # b) = a # split sep b"
  by (induction a) auto

lemma split_not_Nil: "split sep s \<noteq> []"
  by (induction s) (auto split: list.splits)

lemma split_parts_no_sep: "x \<in> set (split sep s) \<Longrightarrow> sep \<notin> set x"
proof (induction s arbitrary: x)
  case Nil
  then show ?case by simp
next
  case (Cons c s)
  show ?case
  proof (cases "c = sep")
    case True
    then show ?thesis using Cons by auto
  next
    case False
    obtain p ps where ps: "split sep s = p # ps"
      using split_not_Nil[of sep s] by (cases "split sep s") auto
    then have "x = c # p \<or> x \<in> set ps"
      using Cons.prems False by simp
    then show ?thesis
      using Cons.IH[of p] Cons.IH[of x] ps False by auto
  qed
qed

lemma readlines_line:
  "CHR 0x0A \<notin> set s \<Longrightarrow> readlines (s @ CHR 0x0A # rest) = (s @ [CHR 0x0A]) # readlines rest"
  by (induction s) auto

lemma universal_newlines_id: "CHR 0x0D \<notin> set s \<Longrightarrow> universal_newlines s = s"
  by (induction s) auto

lemma universal_newlines_no_cr: "CHR 0x0D \<notin> set (universal_newlines s)"
  by (induction s rule: universal_newlines.induct) (auto split: list.splits)

lemma set_readlines: "l \<in> set (readlines s) \<Longrightarrow> set l \<subseteq> set s"
proof (induction s arbitrary: l)
  case Nil
  then show ?case by simp
next
  case (Cons c s)
  show ?case
  proof (cases "c = CHR 0x0A")
    case True
    then show ?thesis
      using Cons by auto
  next
    case False
    show ?thesis
    proof (cases "readlines s")
      case Nil
      then show ?thesis
        using Cons.prems False by simp
    next
      case (Cons p ps)
      then have "l = c # p \<or> l \<in> set ps"
        using Cons.prems False by simp
      then show ?thesis
        using Cons.IH[of p] Cons.IH[of l] Cons by auto
    qed
  qed
qed

lemma text_lines_no_cr: "l \<in> set (text_lines s) \<Longrightarrow> CHR 0x0D \<notin> set l"
  using set_readlines[of l "universal_newlines s"] universal_newlines_no_cr[of s]
  by (auto simp: text_lines_def)

lemma text_lines_id: "CHR 0x0D \<notin> set s \<Longrightarrow> text_lines s = readlines s"
  by (simp add: text_lines_def universal_newlines_id)

lemma strip_line:
  assumes "s \<noteq> []" and "\<not> isspace (hd s)" and "\<not> isspace (last s)"
  shows "strip (s @ [CHR 0x0A]) = s"
proof -
  have a: "dropWhile isspace (s @ [CHR 0x0A]) = s @ [CHR 0x0A]"
    using assms(1,2) by (cases s) simp_all
  have b: "dropWhile isspace (rev s) = rev s"
    using assms(1,3) by (cases s rule: rev_cases) simp_all
  have c: "isspace CHR 0x0A"
    by (simp add: isspace_def)
  show ?thesis
    by (simp add: strip_def a b c)
qed

lemma update_new_key:
  "k \<notin> fst ` set al \<Longrightarrow> AList.update k v al = al @ [(k, v)]"
  by (induction al) auto

section \<open>Saving and loading the monitor calibration\<close>

text \<open>One line of the calibration file, as \<open>save_calibration_data\<close> writes it, is read
  back as the record it was written from.\<close>

lemma parse_calibration_line_saved:
  assumes lv: "CHR '':'' \<notin> set level" "level = [] \<or> \<not> isspace (hd level)"
      "strip level = level" "lower level = level"
    and wb: "repr_round_trips float_repr (white_balance values)"
    and tn: "repr_round_trips float_repr (tint values)"
  shows "strip (level @ '':'' @ float_repr (white_balance values) @ '',''
                 @ float_repr (tint values) @ [CHR 0x0A])
           = level @ '':'' @ float_repr (white_balance values) @ '','' @ float_repr (tint values)"
    and "parse_calibration_line
           (level @ '':'' @ float_repr (white_balance values) @ '','' @ float_repr (tint values))
           = Some (level, values)"
proof -
  let ?w = "float_repr (white_balance values)" and ?t = "float_repr (tint values)"
  have w: "py_float ?w = Some (white_balance values)" "CHR '':'' \<notin> set ?w" "CHR '','' \<notin> set ?w"
    using wb by (auto simp: repr_round_trips_def list_all_iff)
  have t: "py_float ?t = Some (tint values)" "CHR '':'' \<notin> set ?t" "CHR '','' \<notin> set ?t"
      "\<forall>c \<in> set ?t. \<not> isspace c"
    using tn by (auto simp: repr_round_trips_def list_all_iff)
  have tne: "?t \<noteq> []"
    using t(1) py_float_empty by auto
  then have tl: "\<not> isspace (last ?t)"
    using t(4) by simp
  let ?s = "level @ '':'' @ ?w @ '','' @ ?t"
  have hd_s: "\<not> isspace (hd ?s)"
    using lv(2) by (cases level) (simp_all add: isspace_def)
  have last_s: "last ?s = last ?t"
    using tne by simp
  have "strip (?s @ [CHR 0x0A]) = ?s"
    using hd_s tl last_s by (intro strip_line) simp_all
  then show "strip (level @ '':'' @ ?w @ '','' @ ?t @ [CHR 0x0A]) = ?s"
    by simp
  have s1: "split CHR '':'' ?s = [level, ?w @ '','' @ ?t]"
    using split_append[OF lv(1), of "?w @ '','' @ ?t"] w(2) t(2)
    by (simp add: split_no_sep)
  have s2: "split CHR '','' (?w @ '','' @ ?t) = [?w, ?t]"
    using split_append[OF w(3), of ?t] t(3) by (simp add: split_no_sep)
  show "parse_calibration_line ?s = Some (level, values)"
    using s1 s2 by (simp add: parse_calibration_line_def w(1) t(1) lv(3,4))
qed

lemma calibration_loop_step:
  "strip l = s \<Longrightarrow> s \<noteq> [] \<Longrightarrow> parse_calibration_line s = Some (level, vals) \<Longrightarrow>
   calibration_loop (l # ls) (acc, printed)
     = calibration_loop ls (AList.update level vals acc, printed)"
  by (simp add: Let_def)

lemma calibration_loop_saved:
  assumes "distinct (map fst cv)" and "fst ` set cv \<inter> fst ` set acc = {}"
    and "\<forall>(level, values) \<in> set cv.
           CHR '':'' \<notin> set level \<and> CHR 0x0A \<notin> set level
           \<and> (level = [] \<or> \<not> isspace (hd level))
           \<and> strip level = level \<and> lower level = level
           \<and> repr_round_trips float_repr (white_balance values)
           \<and> repr_round_trips float_repr (tint values)"
  shows "calibration_loop (readlines (calibration_text float_repr cv)) (acc, printed)
           = (acc @ cv, printed)"
  using assms
proof (induction cv arbitrary: acc)
  case Nil
  then show ?case by (simp add: calibration_text_def)
next
  case (Cons a cv)
  obtain level vals where a: "a = (level, vals)"
    by (cases a)
  let ?w = "float_repr (white_balance vals)" and ?t = "float_repr (tint vals)"
  let ?s = "level @ '':'' @ ?w @ '','' @ ?t"
  have ok: "CHR '':'' \<notin> set level" "CHR 0x0A \<notin> set level"
      "level = [] \<or> \<not> isspace (hd level)" "strip level = level" "lower level = level"
      "repr_round_trips float_repr (white_balance vals)"
      "repr_round_trips float_repr (tint vals)"
    using Cons.prems(3) a by auto
  have nl: "\<forall>c \<in> set ?w \<union> set ?t. c \<noteq> CHR 0x0A"
    using ok(6,7) by (auto simp: repr_round_trips_def list_all_iff isspace_def)
  have no_nl: "CHR 0x0A \<notin> set ?s"
    using ok(2) nl by auto
  have ct: "calibration_text float_repr (a # cv) = ?s @ CHR 0x0A # calibration_text float_repr cv"
    by (simp add: calibration_text_def a)
  have rd: "readlines (calibration_text float_repr (a # cv))
              = (?s @ [CHR 0x0A]) # readlines (calibration_text float_repr cv)"
    unfolding ct by (rule readlines_line[OF no_nl])
  have st: "strip (?s @ [CHR 0x0A]) = ?s"
    using parse_calibration_line_saved(1)[OF ok(1,3,4,5,6,7)] by simp
  have ne: "?s \<noteq> []"
    by simp
  have parse: "parse_calibration_line ?s = Some (level, vals)"
    by (rule parse_calibration_line_saved(2)[OF ok(1,3,4,5,6,7)])
  have fresh: "level \<notin> fst ` set acc"
    using Cons.prems(2) a by auto
  have disj: "fst ` set cv \<inter> fst ` set (acc @ [(level, vals)]) = {}"
    using Cons.prems(1,2) a by auto
  have rest: "\<forall>(level, values) \<in> set cv.
           CHR '':'' \<notin> set level \<and> CHR 0x0A \<notin> set level
           \<and> (level = [] \<or> \<not> isspace (hd level))
           \<and> strip level = level \<and> lower level = level
           \<and> repr_round_trips float_repr (white_balance values)
           \<and> repr_round_trips float_repr (tint values)"
    using Cons.prems(3) by simp
  have "calibration_loop (readlines (calibration_text float_repr (a # cv))) (acc, printed)
          = calibration_loop (readlines (calibration_text float_repr cv))
              (acc @ [(level, vals)], printed)"
    unfolding rd by (simp only: calibration_loop_step[OF st ne parse] update_new_key[OF fresh])
  also have "\<dots> = ((acc @ [(level, vals)]) @ cv, printed)"
    using Cons.prems(1) by (intro Cons.IH[OF _ disj rest]) simp
  finally show ?case
    by (simp add: a)
qed

text \<open>The five level names can be written to and read from the calibration file.\<close>

lemma level_names_ok:
  "list_all (\<lambda>l. CHR '':'' \<notin> set l \<and> CHR 0x0A \<notin> set l \<and> \<not> isspace (hd l)
                  \<and> strip l = l \<and> lower l = l) (map fst brightness_levels)"
  by code_simp

lemma brightness_level_names:
  assumes "level \<in> set (map fst brightness_levels)"
  shows "CHR '':'' \<notin> set level \<and> CHR 0x0A \<notin> set level
         \<and> (level = [] \<or> \<not> isspace (hd level))
         \<and> strip level = level \<and> lower level = level"
  using assms level_names_ok unfolding list_all_iff by blast

lemma level_names_no_cr: "list_all (\<lambda>l. CHR 0x0D \<notin> set l) (map fst brightness_levels)"
  by code_simp

lemma calibration_text_no_cr:
  assumes "\<forall>(level, values) \<in> set cv.
             CHR 0x0D \<notin> set level
             \<and> repr_round_trips float_repr (white_balance values)
             \<and> repr_round_trips float_repr (tint values)"
  shows "CHR 0x0D \<notin> set (calibration_text float_repr cv)"
proof -
  have sp: "isspace CHR 0x0D"
    by (simp add: isspace_def)
  have "repr_round_trips float_repr v \<Longrightarrow> CHR 0x0D \<notin> set (float_repr v)" for v
    using sp by (auto simp: repr_round_trips_def list_all_iff)
  then show ?thesis
    using assms by (induction cv) (auto simp: calibration_text_def)
qed

lemma calibration_round_trip:
  assumes "distinct (map fst cv)"
    and "set (map fst cv) \<subseteq> set (map fst brightness_levels)"
    and "list_all (calib_round_trips float_repr) (map snd cv)"
  shows "load_calibration_data (save_calibration_data float_repr cv fs) = (cv, [])"
proof -
  have "\<forall>(level, values) \<in> set cv.
           CHR '':'' \<notin> set level \<and> CHR 0x0A \<notin> set level
           \<and> (level = [] \<or> \<not> isspace (hd level))
           \<and> strip level = level \<and> lower level = level
           \<and> repr_round_trips float_repr (white_balance values)
           \<and> repr_round_trips float_repr (tint values)"
  proof (clarify)
    fix level vals
    assume m: "(level, vals) \<in> set cv"
    then have "level \<in> set (map fst brightness_levels)"
      using assms(2) by force
    from brightness_level_names[OF this] m assms(3)
    show "CHR '':'' \<notin> set level \<and> CHR 0x0A \<notin> set level
           \<and> (level = [] \<or> \<not> isspace (hd level))
           \<and> strip level = level \<and> lower level = level
           \<and> repr_round_trips float_repr (white_balance vals)
           \<and> repr_round_trips float_repr (tint vals)"
      by (force simp: list_all_iff calib_round_trips_def)
  qed
  note ok = this
  have "\<forall>(level, values) \<in> set cv.
             CHR 0x0D \<notin> set level
             \<and> repr_round_trips float_repr (white_balance values)
             \<and> repr_round_trips float_repr (tint values)"
  proof (clarify)
    fix level vals
    assume m: "(level, vals) \<in> set cv"
    then have "level \<in> set (map fst brightness_levels)"
      using assms(2) by force
    then have "CHR 0x0D \<notin> set level"
      using level_names_no_cr unfolding list_all_iff by blast
    then show "CHR 0x0D \<notin> set level
             \<and> repr_round_trips float_repr (white_balance vals)
             \<and> repr_round_trips float_repr (tint vals)"
      using ok m by auto
  qed
  then have lines: "text_lines (calibration_text float_repr cv)
                      = readlines (calibration_text float_repr cv)"
    by (intro text_lines_id calibration_text_no_cr)
  from calibration_loop_saved[OF assms(1) _ ok, of "[]" "[]"] show ?thesis
    by (simp add: load_calibration_data_def save_calibration_data_def write_file_def lines)
qed


section \<open>More on lines and fields\<close>

lemma proper_lines_Cons:
  "proper_lines (l # ls) \<longleftrightarrow>
     l \<noteq> [] \<and> CHR 0x0A \<notin> set (butlast l) \<and> (ls \<noteq> [] \<longrightarrow> last l = CHR 0x0A) \<and> proper_lines ls"
  by (cases ls) auto

lemma proper_lines_readlines: "proper_lines (readlines s)"
proof (induction s)
  case Nil
  then show ?case by simp
next
  case (Cons c s)
  show ?case
  proof (cases "c = CHR 0x0A")
    case True
    then show ?thesis
      using Cons by (simp add: proper_lines_Cons)
  next
    case False
    then show ?thesis
      using Cons by (cases "readlines s") (auto simp: proper_lines_Cons)
  qed
qed

lemma proper_lines_text_lines: "proper_lines (text_lines s)"
  unfolding text_lines_def by (rule proper_lines_readlines)

lemma readlines_no_line_feed: "s \<noteq> [] \<Longrightarrow> CHR 0x0A \<notin> set s \<Longrightarrow> readlines s = [s]"
proof (induction s)
  case Nil
  then show ?case by simp
next
  case (Cons c s)
  then show ?case by (cases s) auto
qed

lemma readlines_single:
  assumes "l \<noteq> []" and "CHR 0x0A \<notin> set (butlast l)"
  shows "readlines l = [l]"
proof (cases "last l = CHR 0x0A")
  case True
  then have l: "l = butlast l @ [CHR 0x0A]"
    using assms(1) by (metis append_butlast_last_id)
  from readlines_line[OF assms(2), of "[]"] show ?thesis
    using l by simp
next
  case False
  then have "CHR 0x0A \<notin> set l"
    using assms by (metis append_butlast_last_id in_set_butlastD rotate1.simps(2) set_ConsD set_rotate1)
  then show ?thesis
    using assms(1) by (rule readlines_no_line_feed[rotated])
qed

lemma readlines_concat: "proper_lines ls \<Longrightarrow> readlines (concat ls) = ls"
proof (induction ls)
  case Nil
  then show ?case by simp
next
  case (Cons l ls)
  then have l: "l \<noteq> []" "CHR 0x0A \<notin> set (butlast l)" "ls \<noteq> [] \<longrightarrow> last l = CHR 0x0A"
    and rest: "readlines (concat ls) = ls"
    by (simp_all add: proper_lines_Cons)
  show ?case
  proof (cases "ls = []")
    case True
    then show ?thesis
      using readlines_single[OF l(1,2)] by simp
  next
    case False
    then have "l = butlast l @ [CHR 0x0A]"
      using l by (metis append_butlast_last_id)
    then have ceq: "concat (l # ls) = butlast l @ CHR 0x0A # concat ls"
      by (metis append.assoc append_Cons append_Nil concat.simps(2))
    have "readlines (concat (l # ls)) = (butlast l @ [CHR 0x0A]) # readlines (concat ls)"
      by (simp only: ceq readlines_line[OF l(2)])
    then show ?thesis
      using rest \<open>l = butlast l @ [CHR 0x0A]\<close> by simp
  qed
qed

lemma proper_lines_filter: "proper_lines ls \<Longrightarrow> proper_lines (filter P ls)"
proof (induction ls)
  case Nil
  then show ?case by simp
next
  case (Cons l ls)
  then have "filter P ls \<noteq> [] \<longrightarrow> ls \<noteq> []"
    by auto
  then show ?case
    using Cons by (auto simp: proper_lines_Cons)
qed

lemma proper_lines_member:
  "proper_lines ls \<Longrightarrow> l \<in> set ls \<Longrightarrow> l \<noteq> [] \<and> CHR 0x0A \<notin> set (butlast l)"
  by (induction ls) (auto simp: proper_lines_Cons)

lemma proper_lines_map:
  assumes "proper_lines ls"
    and "\<And>l. l \<in> set ls \<Longrightarrow>
           f l = l \<or> (f l \<noteq> [] \<and> CHR 0x0A \<notin> set (butlast (f l)) \<and> last (f l) = CHR 0x0A)"
  shows "proper_lines (map f ls)"
  using assms
proof (induction ls)
  case Nil
  then show ?case by simp
next
  case (Cons l ls)
  have "proper_lines (map f ls)"
    using Cons by (simp add: proper_lines_Cons)
  moreover have "f l = l \<or> (f l \<noteq> [] \<and> CHR 0x0A \<notin> set (butlast (f l)) \<and> last (f l) = CHR 0x0A)"
    using Cons.prems(2) by simp
  ultimately show ?case
    using Cons.prems(1) by (auto simp: proper_lines_Cons)
qed

lemma strip_space_left: "isspace c \<Longrightarrow> strip (c # s) = strip s"
  by (simp add: strip_def)

lemma strip_space_right: "isspace c \<Longrightarrow> strip (s @ [c]) = strip s"
proof (cases "\<forall>x \<in> set s. isspace x")
  case True
  assume "isspace c"
  then have "\<forall>x \<in> set (s @ [c]). isspace x"
    using True by simp
  then have "dropWhile isspace (s @ [c]) = []" and "dropWhile isspace s = []"
    using True dropWhile_eq_Nil_conv by blast+
  then show ?thesis
    by (simp only: strip_def)
next
  case False
  assume c: "isspace c"
  have d: "dropWhile isspace (s @ [c]) = dropWhile isspace s @ [c]"
    using False by (simp add: dropWhile_append)
  have "dropWhile isspace (rev (dropWhile isspace s @ [c]))
          = dropWhile isspace (rev (dropWhile isspace s))"
    using c by simp
  then show ?thesis
    by (simp only: strip_def d)
qed

lemma set_strip: "set (strip s) \<subseteq> set s"
proof -
  have "set (dropWhile isspace (rev (dropWhile isspace s))) \<subseteq> set (rev (dropWhile isspace s))"
    by (meson set_dropWhileD subsetI)
  also have "\<dots> \<subseteq> set s"
    using set_dropWhileD by fastforce
  finally show ?thesis
    by (simp add: strip_def)
qed

lemma strip_ends: "strip s \<noteq> [] \<Longrightarrow> \<not> isspace (hd (strip s)) \<and> \<not> isspace (last (strip s))"
proof -
  assume ne: "strip s \<noteq> []"
  let ?d = "dropWhile isspace (rev (dropWhile isspace s))"
  have d: "?d \<noteq> []" "strip s = rev ?d"
    using ne by (simp_all add: strip_def)
  have h: "\<not> isspace (hd ?d)"
    using d(1) hd_dropWhile by blast
  have "set ?d \<subseteq> set (rev (dropWhile isspace s))"
    by (meson set_dropWhileD subsetI)
  have "last ?d = last (rev (dropWhile isspace s))"
    using d(1) by (metis append_Nil2 last_appendR takeWhile_dropWhile_id)
  also have "\<dots> = hd (dropWhile isspace s)"
    using d(1) by (metis dropWhile.simps(1) last_rev)
  finally have l: "\<not> isspace (last ?d)"
    using d(1) by (metis dropWhile.simps(1) hd_dropWhile rev.simps(1))
  show ?thesis
    using d h l by (simp add: hd_rev last_rev)
qed

lemma strip_strip: "strip (strip s) = strip s"
proof (cases "strip s = []")
  case True
  have "strip [] = []"
    by (simp add: strip_def)
  then show ?thesis
    by (simp only: True)
next
  case False
  then show ?thesis
    using strip_ends[OF False] by (intro strip_id) simp_all
qed

lemma strip_no_line_feed:
  assumes "CHR 0x0A \<notin> set (butlast l)"
  shows "CHR 0x0A \<notin> set (strip l)"
proof (cases "l = []")
  case True
  then show ?thesis by (simp add: strip_def)
next
  case False
  then have l: "l = butlast l @ [last l]"
    by simp
  show ?thesis
  proof (cases "last l = CHR 0x0A")
    case True
    then have "strip l = strip (butlast l)"
      using l strip_space_right[of "CHR 0x0A" "butlast l"] by (simp add: isspace_def)
    then show ?thesis
      using assms set_strip[of "butlast l"] by auto
  next
    case False
    then have "CHR 0x0A \<notin> set l"
      using assms l by (metis Un_iff empty_iff empty_set set_ConsD set_append)
    then show ?thesis
      using set_strip[of l] by auto
  qed
qed

lemma split_snoc:
  "c \<noteq> sep \<Longrightarrow>
     split sep (xs @ [c]) = butlast (split sep xs) @ [last (split sep xs) @ [c]]"
proof (induction xs)
  case Nil
  then show ?case by simp
next
  case (Cons x xs)
  obtain p ps where s: "split sep xs = p # ps"
    using split_not_Nil[of sep xs] by (cases "split sep xs") auto
  show ?case
    using Cons s by (cases ps) auto
qed

lemma split_drop_leading:
  "\<not> isspace sep \<Longrightarrow> map strip (split sep (dropWhile isspace x)) = map strip (split sep x)"
proof (induction x)
  case Nil
  then show ?case by simp
next
  case (Cons c x)
  show ?case
  proof (cases "isspace c")
    case True
    then have ne: "c \<noteq> sep"
      using Cons.prems by auto
    obtain p ps where s: "split sep x = p # ps"
      using split_not_Nil[of sep x] by (cases "split sep x") auto
    show ?thesis
      using True ne s Cons by (simp add: strip_space_left)
  next
    case False
    then show ?thesis by simp
  qed
qed

lemma split_drop_trailing:
  "\<not> isspace sep \<Longrightarrow>
     map strip (split sep (rev (dropWhile isspace (rev x)))) = map strip (split sep x)"
proof (induction x rule: rev_induct)
  case Nil
  then show ?case by simp
next
  case (snoc c x)
  show ?case
  proof (cases "isspace c")
    case True
    then have ne: "c \<noteq> sep"
      using snoc.prems by auto
    have "map strip (split sep (x @ [c]))
            = map strip (butlast (split sep x)) @ [strip (last (split sep x))]"
      by (simp add: split_snoc[OF ne] strip_space_right[OF True])
    also have "\<dots> = map strip (butlast (split sep x) @ [last (split sep x)])"
      by simp
    also have "\<dots> = map strip (split sep x)"
      using split_not_Nil[of sep x] by simp
    finally show ?thesis
      using True snoc by simp
  next
    case False
    then show ?thesis by simp
  qed
qed

text \<open>The fields of a line do not depend on the white space around the line.\<close>

lemma profile_fields_line: "profile_fields line = map strip (split CHR ''|'' line)"
proof -
  have sep: "\<not> isspace CHR ''|''"
    by (simp add: isspace_def)
  show ?thesis
    unfolding profile_fields_def strip_def[of line]
    by (simp only: split_drop_trailing[OF sep] split_drop_leading[OF sep])
qed

lemma split_four:
  assumes "sep \<notin> set a" and "sep \<notin> set b" and "sep \<notin> set c" and "sep \<notin> set d"
  shows "split sep (a @ sep # b @ sep # c @ sep # d) = [a, b, c, d]"
  by (simp add: split_append assms split_no_sep)

lemma format_1f_chars:
  "list_all (\<lambda>c. \<not> isspace c \<and> c \<noteq> CHR ''|'' \<and> c \<noteq> CHR 0x0A) (format_1f v)
   \<and> format_1f v \<noteq> [] \<and> format_1f v \<noteq> ''NA''"
proof (cases v)
  case (Fin x)
  define t where "t = nat (py_round (\<bar>x\<bar> * 10))"
  define ds where "ds = digits_of 10 (t div 10)"
  define sg where "sg = (if x < 0 then ''-'' else '''')"
  have f: "format_1f v = sg @ ds @ CHR ''.'' # [digit_char (t mod 10)]"
    by (simp add: Fin Let_def t_def ds_def sg_def del: digits_of.simps)
  have d: "list_all isdigit ds" "ds \<noteq> []"
    using digits_of_10[of "t div 10"] by (simp_all add: ds_def)
  have m: "isdigit (digit_char (t mod 10))"
    using digit_char_decimal[of "t mod 10"] by simp
  have ok: "\<And>c. isdigit c \<Longrightarrow> \<not> isspace c \<and> c \<noteq> CHR ''|'' \<and> c \<noteq> CHR 0x0A"
    using isdigit_chars by blast
  have all_ds: "list_all (\<lambda>c. \<not> isspace c \<and> c \<noteq> CHR ''|'' \<and> c \<noteq> CHR 0x0A) ds"
    using d(1) ok by (auto simp: list_all_iff)
  have all_sg: "list_all (\<lambda>c. \<not> isspace c \<and> c \<noteq> CHR ''|'' \<and> c \<noteq> CHR 0x0A) sg"
    by (simp add: sg_def isspace_def)
  have dot: "\<not> isspace CHR ''.''"
    by (simp add: isspace_def)
  have all: "list_all (\<lambda>c. \<not> isspace c \<and> c \<noteq> CHR ''|'' \<and> c \<noteq> CHR 0x0A) (format_1f v)"
    unfolding f using all_ds all_sg dot ok[OF m] by simp
  have "hd (format_1f v) = CHR ''-'' \<or> isdigit (hd (format_1f v))"
    unfolding f using d by (cases ds) (auto simp: sg_def)
  then have "hd (format_1f v) \<noteq> CHR ''N''"
    by (auto simp: isdigit_def)
  then have "format_1f v \<noteq> ''NA''"
    by auto
  moreover have "format_1f v \<noteq> []"
    unfolding f by simp
  ultimately show ?thesis
    using all by simp
next
  case PInf
  then show ?thesis by (simp add: isspace_def)
next
  case NInf
  then show ?thesis by (simp add: isspace_def)
next
  case NaN
  then show ?thesis by (simp add: isspace_def)
qed

lemma correction_field_format_1f: "correction_field (format_1f v) = Some (one_decimal v)"
  using format_1f_chars[of v] by (simp add: correction_field_def py_float_format_1f)

lemma is_blank_all: "is_blank s \<Longrightarrow> \<forall>c \<in> set s. isspace c"
proof -
  assume "is_blank s"
  then have e: "dropWhile isspace (rev (dropWhile isspace s)) = []"
    by (simp add: is_blank_def strip_def)
  have all: "\<forall>c \<in> set (dropWhile isspace s). isspace c"
    using e[unfolded dropWhile_eq_Nil_conv] by simp
  have "dropWhile isspace s = []"
  proof (cases "dropWhile isspace s")
    case Nil
    then show ?thesis .
  next
    case (Cons c cs)
    then have "\<not> isspace c"
      using hd_dropWhile[of isspace s] by simp
    moreover have "isspace c"
      using all Cons by simp
    ultimately show ?thesis
      by simp
  qed
  then show ?thesis
    unfolding dropWhile_eq_Nil_conv .
qed

text \<open>The fields of the line that \<open>on_save_changes\<close> writes, and its form.\<close>

lemma new_profile_line_fields:
  assumes "CHR ''|'' \<notin> set name" and "strip name = name"
    and "CHR ''|'' \<notin> set (strip (phone_temp_var st))"
  shows "profile_fields (new_profile_line name st)
           = [name, strip (phone_temp_var st), format_1f (user_wb_var st), format_1f (user_tint_var st)]"
proof -
  let ?t = "strip (phone_temp_var st)"
  let ?w = "format_1f (user_wb_var st)" and ?n = "format_1f (user_tint_var st)"
  have w: "CHR ''|'' \<notin> set ?w" "?w \<noteq> []" "\<not> isspace (hd ?w)" "\<not> isspace (last ?w)"
    using format_1f_chars[of "user_wb_var st"] by (auto simp: list_all_iff)
  have n: "CHR ''|'' \<notin> set ?n" "?n \<noteq> []" "\<not> isspace (hd ?n)" "\<not> isspace (last ?n)"
    using format_1f_chars[of "user_tint_var st"] by (auto simp: list_all_iff)
  have sp: "isspace CHR '' ''" "isspace CHR 0x0A"
    by (simp_all add: isspace_def)
  have line: "new_profile_line name st
          = (name @ '' '') @ CHR ''|'' # ('' '' @ ?t @ '' '') @ CHR ''|'' # ('' '' @ ?w @ '' '')
              @ CHR ''|'' # ('' '' @ ?n @ [CHR 0x0A])"
    by (simp add: new_profile_line_def)
  have parts: "split CHR ''|'' (new_profile_line name st)
          = [name @ '' '', '' '' @ ?t @ '' '', '' '' @ ?w @ '' '', '' '' @ ?n @ [CHR 0x0A]]"
    unfolding line using assms(1,3) w(1) n(1) by (intro split_four) simp_all
  have s1: "strip (name @ '' '') = name"
    using strip_space_right[OF sp(1), of name] assms(2) by simp
  have s2: "strip ('' '' @ ?t @ '' '') = ?t"
    using strip_space_right[OF sp(1), of "CHR '' '' # ?t"] strip_space_left[OF sp(1), of ?t]
    by (simp add: strip_strip)
  have s3: "strip ('' '' @ ?w @ '' '') = ?w"
    using strip_space_right[OF sp(1), of "CHR '' '' # ?w"] strip_space_left[OF sp(1), of ?w]
      strip_id[OF w(2,3,4)] by simp
  have s4: "strip ('' '' @ ?n @ [CHR 0x0A]) = ?n"
    using strip_space_right[OF sp(2), of "CHR '' '' # ?n"] strip_space_left[OF sp(1), of ?n]
      strip_id[OF n(2,3,4)] by simp
  show ?thesis
    unfolding profile_fields_line parts using s1 s2 s3 s4 by simp
qed

lemma new_profile_line_form:
  assumes "CHR 0x0A \<notin> set name" and "CHR 0x0A \<notin> set (strip (phone_temp_var st))"
  shows "new_profile_line name st \<noteq> []
         \<and> CHR 0x0A \<notin> set (butlast (new_profile_line name st))
         \<and> last (new_profile_line name st) = CHR 0x0A
         \<and> \<not> is_blank (new_profile_line name st)"
proof -
  let ?body = "name @ '' | '' @ strip (phone_temp_var st) @ '' | '' @ format_1f (user_wb_var st)
       @ '' | '' @ format_1f (user_tint_var st)"
  have line: "new_profile_line name st = ?body @ [CHR 0x0A]"
    by (simp add: new_profile_line_def)
  have "CHR 0x0A \<notin> set (format_1f (user_wb_var st))" "CHR 0x0A \<notin> set (format_1f (user_tint_var st))"
    using format_1f_chars[of "user_wb_var st"] format_1f_chars[of "user_tint_var st"]
    by (auto simp: list_all_iff)
  then have body: "CHR 0x0A \<notin> set ?body"
    using assms by simp
  have "\<not> isspace CHR ''|''" and "CHR ''|'' \<in> set (new_profile_line name st)"
    by (simp_all add: isspace_def new_profile_line_def)
  then have nb: "\<not> is_blank (new_profile_line name st)"
    using is_blank_all[of "new_profile_line name st"] by blast
  have "butlast (?body @ [CHR 0x0A]) = ?body"
    by (rule butlast_snoc)
  then show ?thesis
    using nb body unfolding line by (simp only: last_snoc) simp
qed

section \<open>Saving a profile and loading the file again\<close>

lemma set_split: "x \<in> set (split sep s) \<Longrightarrow> set x \<subseteq> set s"
proof (induction s arbitrary: x)
  case Nil
  then show ?case by simp
next
  case (Cons c s)
  obtain p ps where ps: "split sep s = p # ps"
    using split_not_Nil[of sep s] by (cases "split sep s") auto
  show ?case
  proof (cases "c = sep")
    case True
    then show ?thesis
      using Cons by auto
  next
    case False
    then have "x = c # p \<or> x \<in> set ps"
      using Cons.prems ps by simp
    then show ?thesis
      using Cons.IH[of p] Cons.IH[of x] ps by auto
  qed
qed

text \<open>The name of a record line has no separator and no white space around it, and no
  line feed when the line is one of a file.\<close>

lemma record_name:
  assumes "is_record_of name line"
  shows "CHR ''|'' \<notin> set name" and "strip name = name"
    and "CHR 0x0A \<notin> set (butlast line) \<Longrightarrow> CHR 0x0A \<notin> set name"
proof -
  let ?parts = "split CHR ''|'' (strip line)"
  have len: "0 < length ?parts" and nm: "name = map strip ?parts ! 0"
    using assms by (auto simp: is_record_of_def profile_fields_def simp del: nth_map)
  have name: "name = strip (?parts ! 0)"
    unfolding nm using len by (rule nth_map)
  have mem: "?parts ! 0 \<in> set ?parts"
    using len by (rule nth_mem)
  show "CHR ''|'' \<notin> set name"
    using split_parts_no_sep[OF mem] set_strip[of "?parts ! 0"] name by auto
  show "strip name = name"
    unfolding name by (rule strip_strip)
  show "CHR 0x0A \<notin> set name" if "CHR 0x0A \<notin> set (butlast line)"
    using strip_no_line_feed[OF that] set_split[OF mem] set_strip[of "?parts ! 0"] name by auto
qed

lemma record_name_chars:
  assumes "is_record_of name line"
  shows "set name \<subseteq> set line"
proof -
  let ?parts = "split CHR ''|'' (strip line)"
  have len: "0 < length ?parts" and nm: "name = map strip ?parts ! 0"
    using assms by (auto simp: is_record_of_def profile_fields_def simp del: nth_map)
  have name: "name = strip (?parts ! 0)"
    unfolding nm using len by (rule nth_map)
  have mem: "?parts ! 0 \<in> set ?parts"
    using len by (rule nth_mem)
  show ?thesis
    using set_split[OF mem] set_strip[of "?parts ! 0"] set_strip[of line] name by auto
qed

text \<open>One turn of the loop of \<open>load_phone_profiles\<close>, by the kind of the line.\<close>

lemma profiles_loop_blank:
  "is_blank line \<Longrightarrow> profiles_loop (line # lines) acc = profiles_loop lines acc"
  by (simp add: is_blank_def)

lemma profiles_loop_short:
  "\<not> is_blank line \<Longrightarrow> length (profile_fields line) < 4 \<Longrightarrow>
   profiles_loop (line # lines) acc = profiles_loop lines acc"
  by (simp add: is_blank_def profile_fields_def Let_def)

lemma profiles_loop_fields:
  "\<not> is_blank line \<Longrightarrow> \<not> length (profile_fields line) < 4 \<Longrightarrow>
   profiles_loop (line # lines) acc =
     (case correction_field (profile_fields line ! 2) of
        None \<Rightarrow> (Some ValueError, acc)
      | Some wb \<Rightarrow>
          (case correction_field (profile_fields line ! 3) of
             None \<Rightarrow> (Some ValueError, acc)
           | Some tn \<Rightarrow>
               profiles_loop lines
                 (AList.update (profile_fields line ! 0)
                    \<lparr>temperature = profile_fields line ! 1, wb_correction = wb, tint_correction = tn\<rparr>
                    acc)))"
  unfolding profile_fields_def is_blank_def by (simp add: Let_def del: nth_map)

lemma profiles_loop_new_line:
  assumes "CHR ''|'' \<notin> set name" and "strip name = name"
    and "CHR ''|'' \<notin> set (strip (phone_temp_var st))"
    and "CHR 0x0A \<notin> set name" and "CHR 0x0A \<notin> set (strip (phone_temp_var st))"
  shows "profiles_loop (new_profile_line name st # lines) acc
           = profiles_loop lines (AList.update name (saved_record st) acc)"
proof -
  have nb: "\<not> is_blank (new_profile_line name st)"
    using new_profile_line_form[OF assms(4,5)] by simp
  have f: "profile_fields (new_profile_line name st)
           = [name, strip (phone_temp_var st), format_1f (user_wb_var st), format_1f (user_tint_var st)]"
    by (rule new_profile_line_fields[OF assms(1,2,3)])
  have len: "\<not> length (profile_fields (new_profile_line name st)) < 4"
    by (simp add: f)
  show ?thesis
    unfolding profiles_loop_fields[OF nb len]
    by (simp add: f correction_field_format_1f saved_record_def)
qed

text \<open>The loop over the lines that \<open>on_save_changes\<close> wrote, for a file that the loop
  accepted before.\<close>

lemma profiles_loop_rewritten:
  assumes "fst (profiles_loop lines acc) = None"
    and "proper_lines lines"
    and "CHR ''|'' \<notin> set (strip (phone_temp_var st))"
    and "CHR 0x0A \<notin> set (strip (phone_temp_var st))"
  shows "fst (profiles_loop
                (map (\<lambda>line. if is_record_of name line then new_profile_line name st else line)
                   (filter (\<lambda>line. \<not> is_blank line) lines)) acc') = None
         \<and> map_of (snd (profiles_loop
                (map (\<lambda>line. if is_record_of name line then new_profile_line name st else line)
                   (filter (\<lambda>line. \<not> is_blank line) lines)) acc')) name
             = (if list_ex (is_record_of name) lines then Some (saved_record st)
                else map_of acc' name)"
  using assms(1,2)
proof (induction lines arbitrary: acc acc')
  case Nil
  then show ?case by simp
next
  case (Cons line lines)
  let ?rw = "\<lambda>line. if is_record_of name line then new_profile_line name st else line"
  have pl: "proper_lines lines" and ln: "CHR 0x0A \<notin> set (butlast line)"
    using Cons.prems(2) by (simp_all add: proper_lines_Cons)
  show ?case
  proof (cases "is_blank line")
    case True
    then have "fst (profiles_loop lines acc) = None"
      using Cons.prems(1) by (simp add: profiles_loop_blank del: profiles_loop.simps)
    from Cons.IH[OF this pl, of acc'] show ?thesis
      using True is_record_of_blank[OF True, of name] by simp
  next
    case nb: False
    show ?thesis
    proof (cases "is_record_of name line")
      case True
      then have len: "\<not> length (profile_fields line) < 4"
        by (simp add: is_record_of_def)
      obtain acc1 where rest: "fst (profiles_loop lines acc1) = None"
        using Cons.prems(1) unfolding profiles_loop_fields[OF nb len]
        by (auto split: option.splits)
      have step: "profiles_loop (new_profile_line name st # rest') acc'
                    = profiles_loop rest' (AList.update name (saved_record st) acc')" for rest'
        using record_name[OF True] ln assms(3,4) by (intro profiles_loop_new_line) simp_all
      from Cons.IH[OF rest pl, of "AList.update name (saved_record st) acc'"] show ?thesis
        using nb True by (simp add: step update_conv' del: profiles_loop.simps)
    next
      case False
      show ?thesis
      proof (cases "length (profile_fields line) < 4")
        case True
        then have "fst (profiles_loop lines acc) = None"
          using Cons.prems(1) nb by (simp add: profiles_loop_short del: profiles_loop.simps)
        from Cons.IH[OF this pl, of acc'] show ?thesis
          using nb False True by (simp add: profiles_loop_short del: profiles_loop.simps)
      next
        case len: False
        then have other: "profile_fields line ! 0 \<noteq> name"
          using False by (auto simp: is_record_of_def)
        obtain wb tn where c: "correction_field (profile_fields line ! 2) = Some wb"
            "correction_field (profile_fields line ! 3) = Some tn"
          and rest: "fst (profiles_loop lines
                 (AList.update (profile_fields line ! 0)
                    \<lparr>temperature = profile_fields line ! 1, wb_correction = wb, tint_correction = tn\<rparr>
                    acc)) = None"
          using Cons.prems(1) unfolding profiles_loop_fields[OF nb len]
          by (auto split: option.splits)
        from Cons.IH[OF rest pl, of "AList.update (profile_fields line ! 0)
                    \<lparr>temperature = profile_fields line ! 1, wb_correction = wb, tint_correction = tn\<rparr>
                    acc'"]
        show ?thesis
          using nb False other
          by (simp add: profiles_loop_fields[OF nb len] c update_conv' del: profiles_loop.simps)
      qed
    qed
  qed
qed

lemma on_phone_profile_change_frame:
  "phone_profiles (snd (on_phone_profile_change val st)) = phone_profiles st"
  by (simp add: on_phone_profile_change_def update_background_frame split: option.split)

lemma load_phone_profiles_profiles:
  "phone_profiles (snd (load_phone_profiles fs filename st)) =
     (case files fs (path_join CCT_SETTINGS_DIR filename) of
        None \<Rightarrow> []
      | Some text \<Rightarrow> snd (profiles_loop (text_lines text) []))"
  by (auto simp: load_phone_profiles_def on_phone_profile_change_frame
      split: option.splits prod.splits list.splits)

text \<open>The lines that \<open>on_save_changes\<close> writes are read as the same lines again.\<close>

lemma rewritten_lines_proper:
  assumes "proper_lines lines" and "CHR 0x0A \<notin> set (strip (phone_temp_var st))"
  shows "proper_lines
           (map (\<lambda>line. if is_record_of name line then new_profile_line name st else line)
              (filter (\<lambda>line. \<not> is_blank line) lines))"
proof (rule proper_lines_map)
  show "proper_lines (filter (\<lambda>line. \<not> is_blank line) lines)"
    using assms(1) by (rule proper_lines_filter)
next
  fix l
  assume "l \<in> set (filter (\<lambda>line. \<not> is_blank line) lines)"
  then have "l \<in> set lines"
    by simp
  then have ln: "CHR 0x0A \<notin> set (butlast l)"
    using proper_lines_member[OF assms(1)] by simp
  show "(if is_record_of name l then new_profile_line name st else l) = l
        \<or> ((if is_record_of name l then new_profile_line name st else l) \<noteq> []
            \<and> CHR 0x0A \<notin> set (butlast (if is_record_of name l then new_profile_line name st else l))
            \<and> last (if is_record_of name l then new_profile_line name st else l) = CHR 0x0A)"
  proof (cases "is_record_of name l")
    case True
    from new_profile_line_form[OF record_name(3)[OF True ln] assms(2)] True show ?thesis
      by simp
  next
    case False
    then show ?thesis by simp
  qed
qed

lemma concat_map_filter_notin:
  "(\<And>l. l \<in> set ls \<Longrightarrow> c \<notin> set (f l)) \<Longrightarrow> c \<notin> set (concat (map f (filter P ls)))"
  by (induction ls) simp_all

lemma rewritten_lines_no_cr:
  assumes "CHR 0x0D \<notin> set (strip (phone_temp_var st))"
  shows "CHR 0x0D \<notin> set (concat
           (map (\<lambda>line. if is_record_of name line then new_profile_line name st else line)
              (filter (\<lambda>line. \<not> is_blank line) (text_lines old))))"
proof -
  have sp: "isspace CHR 0x0D"
    by (simp add: isspace_def)
  have fmt: "CHR 0x0D \<notin> set (format_1f v)" for v
    using format_1f_chars[of v] sp by (auto simp: list_all_iff)
  have "CHR 0x0D \<notin> set (if is_record_of name l then new_profile_line name st else l)"
    if "l \<in> set (text_lines old)" for l
  proof (cases "is_record_of name l")
    case True
    then have "CHR 0x0D \<notin> set name"
      using record_name_chars[OF True] text_lines_no_cr[OF that] by auto
    then show ?thesis
      using True assms fmt by (simp add: new_profile_line_def)
  next
    case False
    then show ?thesis
      using text_lines_no_cr[OF that] by simp
  qed
  then show ?thesis
    by (intro concat_map_filter_notin) blast
qed

lemma profile_round_trip:
  assumes "phone_file_var st \<noteq> ''''" and "phone_file_var st \<noteq> ''No files found''"
    and "map_of (phone_profiles st) (phone_profile_var st) = Some p"
    and "files fs (path_join CCT_SETTINGS_DIR (phone_file_var st)) = Some old"
    and "list_ex (is_record_of (phone_profile_var st)) (text_lines old)"
    and "fst (profiles_loop (text_lines old) []) = None"
    and "CHR ''|'' \<notin> set (strip (phone_temp_var st))"
    and "CHR 0x0A \<notin> set (strip (phone_temp_var st))"
    and "CHR 0x0D \<notin> set (strip (phone_temp_var st))"
  shows "fst (on_save_changes (st, fs)) = None"
    and "map_of (phone_profiles (fst (snd (on_save_changes (st, fs))))) (phone_profile_var st)
           = Some (saved_record st)"
    and "map_of (phone_profiles (snd (load_phone_profiles (snd (snd (on_save_changes (st, fs))))
             (phone_file_var st) (fst (snd (on_save_changes (st, fs))))))) (phone_profile_var st)
           = Some (saved_record st)"
proof -
  let ?name = "phone_profile_var st"
  let ?path = "path_join CCT_SETTINGS_DIR (phone_file_var st)"
  let ?new = "map (\<lambda>line. if is_record_of ?name line then new_profile_line ?name st else line)
                (filter (\<lambda>line. \<not> is_blank line) (text_lines old))"
  have held: "map_of (phone_profiles st) ?name \<noteq> None"
    using assms(3) by simp
  have save: "on_save_changes (st, fs) =
      (None,
       st\<lparr>phone_profiles := AList.update ?name (saved_record st) (phone_profiles st)\<rparr>,
       write_file ?path (concat ?new) fs)"
    using assms(1,2,4,5) by (simp add: on_save_changes_def Let_def save_loop_found[OF held])
  show "fst (on_save_changes (st, fs)) = None"
    by (simp add: save)
  show "map_of (phone_profiles (fst (snd (on_save_changes (st, fs))))) ?name = Some (saved_record st)"
    by (simp add: save update_conv')
  have "readlines (concat ?new) = ?new"
    using rewritten_lines_proper[OF proper_lines_text_lines assms(8)] by (rule readlines_concat)
  then have rd: "text_lines (concat ?new) = ?new"
    using text_lines_id[OF rewritten_lines_no_cr[OF assms(9)], of "phone_profile_var st" old]
    by simp
  have loop: "map_of (snd (profiles_loop ?new [])) ?name = Some (saved_record st)"
    using profiles_loop_rewritten[OF assms(6) proper_lines_text_lines assms(7,8), of ?name "[]"]
      assms(5) by simp
  show "map_of (phone_profiles (snd (load_phone_profiles (snd (snd (on_save_changes (st, fs))))
             (phone_file_var st) (fst (snd (on_save_changes (st, fs))))))) ?name
           = Some (saved_record st)"
    by (simp add: save load_phone_profiles_profiles write_file_def rd loop)
qed

text \<open>
  C4. With the temperature entry \<open>5000 | 3\<close>, the line that \<open>on_save_changes\<close> writes has
  five fields: the dictionary keeps the corrections 1.0 and 2.0 for the profile, and
  \<open>load_phone_profiles\<close> reads 3.0 and 1.0 for it from the file.
\<close>

theorem profile_round_trip_separator_in_temperature:
  "(let st = \<lparr>calibration_data = [], test_color_var = ''Gray'', phone_file_var = ''phones.txt'',
              phone_profile_var = ''P'', phone_temp_var = ''5000 | 3'',
              user_wb_var = Fin 1, user_tint_var = Fin 2,
              phone_profiles =
                [(''P'', \<lparr>temperature = ''6500'', wb_correction = Fin 0, tint_correction = Fin 0\<rparr>)],
              root_bg = ''#000000''\<rparr>;
        fs = \<lparr>files = Map.empty(''CCT_Settings/phones.txt'' \<mapsto> ''P | 6500 | 0.0 | 0.0\<newline>''),
              writes = []\<rparr>;
        (err, st', fs') = on_save_changes (st, fs);
        reloaded = snd (load_phone_profiles fs' ''phones.txt'' st')
    in err = None
       \<and> files fs' ''CCT_Settings/phones.txt'' = Some ''P | 5000 | 3 | 1.0 | 2.0\<newline>''
       \<and> map_of (phone_profiles st') ''P''
           = Some \<lparr>temperature = ''5000 | 3'', wb_correction = Fin 1, tint_correction = Fin 2\<rparr>
       \<and> map_of (phone_profiles reloaded) ''P''
           = Some \<lparr>temperature = ''5000'', wb_correction = Fin 3, tint_correction = Fin 1\<rparr>)"
proof -
  define st where "st = \<lparr>calibration_data = [], test_color_var = ''Gray'', phone_file_var = ''phones.txt'',
              phone_profile_var = ''P'', phone_temp_var = ''5000 | 3'',
              user_wb_var = Fin 1, user_tint_var = Fin 2,
              phone_profiles =
                [(''P'', \<lparr>temperature = ''6500'', wb_correction = Fin 0, tint_correction = Fin 0\<rparr>)],
              root_bg = ''#000000''\<rparr>"
  define fs where "fs = \<lparr>files = Map.empty(''CCT_Settings/phones.txt'' \<mapsto> ''P | 6500 | 0.0 | 0.0\<newline>''),
              writes = []\<rparr>"
  have held: "map_of (phone_profiles st) (phone_profile_var st) \<noteq> None"
    by (simp add: st_def)
  have sel: "phone_profile_var st = ''P''" "phone_file_var st = ''phones.txt''"
    by (simp_all add: st_def)
  have rd: "text_lines ''P | 6500 | 0.0 | 0.0\<newline>'' = [''P | 6500 | 0.0 | 0.0\<newline>'']"
    by (simp add: text_lines_def)
  have kinds: "\<not> is_blank ''P | 6500 | 0.0 | 0.0\<newline>''"
      "is_record_of ''P'' ''P | 6500 | 0.0 | 0.0\<newline>''"
    by (simp_all add: is_blank_def is_record_of_def profile_fields_def strip_def isspace_def)
  have fmt: "format_1f (Fin 1) = ''1.0''" "format_1f (Fin 2) = ''2.0''"
    by (simp_all add: py_round_numeral digit_char_def)
  have line: "new_profile_line ''P'' st = ''P | 5000 | 3 | 1.0 | 2.0\<newline>''"
    unfolding new_profile_line_def
    using fmt by (simp add: st_def strip_def isspace_def del: format_1f.simps)
  have saved: "saved_record st
                 = \<lparr>temperature = ''5000 | 3'', wb_correction = Fin 1, tint_correction = Fin 2\<rparr>"
    by (simp add: saved_record_def st_def strip_def isspace_def py_round_numeral)
  have save: "on_save_changes (st, fs) =
      (None,
       st\<lparr>phone_profiles :=
            [(''P'', \<lparr>temperature = ''5000 | 3'', wb_correction = Fin 1, tint_correction = Fin 2\<rparr>)]\<rparr>,
       \<lparr>files = Map.empty(''CCT_Settings/phones.txt'' \<mapsto> ''P | 5000 | 3 | 1.0 | 2.0\<newline>''),
        writes = [(''CCT_Settings/phones.txt'', ''P | 5000 | 3 | 1.0 | 2.0\<newline>'')]\<rparr>)"
    unfolding on_save_changes_def
    by (simp add: Let_def sel path_join_def CCT_SETTINGS_DIR_def fs_def rd save_loop_found[OF held]
        kinds line saved write_file_def del: save_loop.simps)
       (simp add: st_def)
  have load: "profiles_loop (text_lines ''P | 5000 | 3 | 1.0 | 2.0\<newline>'') []
      = (None, [(''P'', \<lparr>temperature = ''5000'', wb_correction = Fin 3, tint_correction = Fin 1\<rparr>)])"
    by (simp add: text_lines_def correction_field_def py_float_eval)
  have "map_of (phone_profiles (snd (load_phone_profiles
            \<lparr>files = Map.empty(''CCT_Settings/phones.txt'' \<mapsto> ''P | 5000 | 3 | 1.0 | 2.0\<newline>''),
             writes = [(''CCT_Settings/phones.txt'', ''P | 5000 | 3 | 1.0 | 2.0\<newline>'')]\<rparr>
            ''phones.txt'' st'))) ''P''
          = Some \<lparr>temperature = ''5000'', wb_correction = Fin 3, tint_correction = Fin 1\<rparr>" for st'
    unfolding load_phone_profiles_profiles
    by (simp add: path_join_def CCT_SETTINGS_DIR_def load)
  then show ?thesis
    using save unfolding st_def fs_def Let_def by simp
qed

text \<open>
  C4, amended. A calibration dictionary whose keys are level names and whose corrections
  are finite floats that \<^verbatim>\<open>repr\<close> and \<^verbatim>\<open>float\<close> round-trip is loaded from the file that
  \<open>save_calibration_data\<close> wrote as the same dictionary, with no line reported. When
  \<open>on_save_changes\<close> saves the selected profile, held by the dictionary and with a record
  in a file whose lines \<open>load_phone_profiles\<close> accepts, and the temperature entry has
  neither the separator \<open>|\<close> nor a line feed or carriage return, then it raises nothing, and the record it
  keeps for the profile and the record that \<open>load_phone_profiles\<close> reads from the file
  written are the same: the stripped temperature text and both corrections rounded to one
  decimal.
\<close>

theorem persistence_round_trip:
  assumes "distinct (map fst cv)"
    and "set (map fst cv) \<subseteq> set (map fst brightness_levels)"
    and "list_all (calib_round_trips float_repr) (map snd cv)"
    and "phone_file_var st \<noteq> ''''" and "phone_file_var st \<noteq> ''No files found''"
    and "map_of (phone_profiles st) (phone_profile_var st) = Some p"
    and "files fs2 (path_join CCT_SETTINGS_DIR (phone_file_var st)) = Some old"
    and "list_ex (is_record_of (phone_profile_var st)) (text_lines old)"
    and "fst (profiles_loop (text_lines old) []) = None"
    and "CHR ''|'' \<notin> set (strip (phone_temp_var st))"
    and "CHR 0x0A \<notin> set (strip (phone_temp_var st))"
    and "CHR 0x0D \<notin> set (strip (phone_temp_var st))"
  shows "load_calibration_data (save_calibration_data float_repr cv fs) = (cv, [])
         \<and> (let (err, st', fs') = on_save_changes (st, fs2);
                 reloaded = snd (load_phone_profiles fs' (phone_file_var st) st')
             in err = None
                \<and> map_of (phone_profiles st') (phone_profile_var st) = Some (saved_record st)
                \<and> map_of (phone_profiles reloaded) (phone_profile_var st) = Some (saved_record st))"
proof -
  have a: "load_calibration_data (save_calibration_data float_repr cv fs) = (cv, [])"
    using assms(1,2,3) by (rule calibration_round_trip)
  note b = profile_round_trip[OF assms(4,5,6,7,8,9,10,11,12)]
  show ?thesis
    using a b by (simp add: case_prod_beta Let_def)
qed

theorem persistence_round_trip_witness:
  "(let cv = [(''black'', \<lparr>white_balance = Fin 1.5, tint = Fin (- 2)\<rparr>),
              (''gray'', \<lparr>white_balance = Fin 0, tint = Fin 0\<rparr>)];
        float_repr = (\<lambda>v. if v = Fin 1.5 then ''1.5'' else if v = Fin (- 2) then ''-2.0'' else ''0.0'');
        st = \<lparr>calibration_data = [], test_color_var = ''Gray'', phone_file_var = ''phones.txt'',
              phone_profile_var = ''A'', phone_temp_var = '' 7000 '',
              user_wb_var = Fin 12.34, user_tint_var = Fin (- 0.5),
              phone_profiles =
                [(''A'', \<lparr>temperature = ''6500'', wb_correction = Fin 0, tint_correction = Fin 0\<rparr>),
                 (''B'', \<lparr>temperature = ''NA'', wb_correction = Fin 3, tint_correction = Fin 0\<rparr>)],
              root_bg = ''#000000''\<rparr>;
        old = ''A | 6500 | 0.0 | 0.0\<newline>\<newline>B | NA | 3.0 | \<newline>'';
        fs2 = \<lparr>files = Map.empty(''CCT_Settings/phones.txt'' \<mapsto> old), writes = []\<rparr>;
        (err, st', fs') = on_save_changes (st, fs2);
        reloaded = snd (load_phone_profiles fs' ''phones.txt'' st')
    in distinct (map fst cv) \<and> set (map fst cv) \<subseteq> set (map fst brightness_levels)
       \<and> list_all (calib_round_trips float_repr) (map snd cv)
       \<and> list_ex (is_record_of ''A'') (text_lines old)
       \<and> fst (profiles_loop (text_lines old) []) = None
       \<and> CHR ''|'' \<notin> set (strip (phone_temp_var st))
       \<and> CHR 0x0A \<notin> set (strip (phone_temp_var st))
       \<and> CHR 0x0D \<notin> set (strip (phone_temp_var st))
       \<and> load_calibration_data
            (save_calibration_data float_repr cv \<lparr>files = Map.empty, writes = []\<rparr>) = (cv, [])
       \<and> err = None
       \<and> map_of (phone_profiles st') ''A''
           = Some \<lparr>temperature = ''7000'', wb_correction = Fin 12.3, tint_correction = Fin (- 0.5)\<rparr>
       \<and> map_of (phone_profiles reloaded) ''A''
           = Some \<lparr>temperature = ''7000'', wb_correction = Fin 12.3, tint_correction = Fin (- 0.5)\<rparr>)"
proof -
  define cv where "cv = [(''black'', \<lparr>white_balance = Fin 1.5, tint = Fin (- 2)\<rparr>),
              (''gray'', \<lparr>white_balance = Fin 0, tint = Fin 0\<rparr>)]"
  define float_repr :: "pyfloat \<Rightarrow> string"
    where "float_repr = (\<lambda>v. if v = Fin 1.5 then ''1.5'' else if v = Fin (- 2) then ''-2.0'' else ''0.0'')"
  define st where "st = \<lparr>calibration_data = [], test_color_var = ''Gray'', phone_file_var = ''phones.txt'',
              phone_profile_var = ''A'', phone_temp_var = '' 7000 '',
              user_wb_var = Fin 12.34, user_tint_var = Fin (- 0.5),
              phone_profiles =
                [(''A'', \<lparr>temperature = ''6500'', wb_correction = Fin 0, tint_correction = Fin 0\<rparr>),
                 (''B'', \<lparr>temperature = ''NA'', wb_correction = Fin 3, tint_correction = Fin 0\<rparr>)],
              root_bg = ''#000000''\<rparr>"
  define old where "old = ''A | 6500 | 0.0 | 0.0\<newline>\<newline>B | NA | 3.0 | \<newline>''"
  define fs2 where "fs2 = \<lparr>files = Map.empty(''CCT_Settings/phones.txt'' \<mapsto> old), writes = []\<rparr>"
  have h1: "distinct (map fst cv)" and h2: "set (map fst cv) \<subseteq> set (map fst brightness_levels)"
    by (simp_all add: cv_def brightness_levels_def)
  have h3: "list_all (calib_round_trips float_repr) (map snd cv)"
    by (simp add: cv_def float_repr_def calib_round_trips_def is_finite_def repr_round_trips_def
        py_float_eval)
  have h4: "phone_file_var st \<noteq> ''''" and h5: "phone_file_var st \<noteq> ''No files found''"
    and h6: "map_of (phone_profiles st) (phone_profile_var st)
           = Some \<lparr>temperature = ''6500'', wb_correction = Fin 0, tint_correction = Fin 0\<rparr>"
    and sel: "phone_profile_var st = ''A''" "phone_file_var st = ''phones.txt''"
    by (simp_all add: st_def)
  have h7: "files fs2 (path_join CCT_SETTINGS_DIR (phone_file_var st)) = Some old"
    by (simp add: fs2_def sel path_join_def CCT_SETTINGS_DIR_def)
  have rd: "text_lines old = [''A | 6500 | 0.0 | 0.0\<newline>'', ''\<newline>'', ''B | NA | 3.0 | \<newline>'']"
    by (simp add: old_def text_lines_def)
  have h8: "list_ex (is_record_of (phone_profile_var st)) (text_lines old)"
    unfolding rd sel
    by (simp add: is_record_of_def profile_fields_def strip_def isspace_def)
  have h9: "fst (profiles_loop (text_lines old) []) = None"
    unfolding rd by (simp add: correction_field_def py_float_eval)
  have h10: "CHR ''|'' \<notin> set (strip (phone_temp_var st))"
    and h11: "CHR 0x0A \<notin> set (strip (phone_temp_var st))"
    and h12: "CHR 0x0D \<notin> set (strip (phone_temp_var st))"
    by (simp_all add: st_def strip_def isspace_def)
  have rnd: "nat (py_round (\<bar>12.34\<bar> * 10)) = 123" "nat (py_round (\<bar>- 0.5\<bar> * 10)) = 5"
    by (simp_all add: py_round_def)
  have saved: "saved_record st
                 = \<lparr>temperature = ''7000'', wb_correction = Fin 12.3, tint_correction = Fin (- 0.5)\<rparr>"
    using rnd by (simp add: saved_record_def st_def strip_def isspace_def)
  from persistence_round_trip[OF h1 h2 h3 h4 h5 h6 h7 h8 h9 h10 h11 h12,
      of "\<lparr>files = Map.empty, writes = []\<rparr>"]
  have "load_calibration_data
            (save_calibration_data float_repr cv \<lparr>files = Map.empty, writes = []\<rparr>) = (cv, [])
         \<and> (let (err, st', fs') = on_save_changes (st, fs2);
                 reloaded = snd (load_phone_profiles fs' ''phones.txt'' st')
             in err = None
                \<and> map_of (phone_profiles st') ''A''
                    = Some \<lparr>temperature = ''7000'', wb_correction = Fin 12.3, tint_correction = Fin (- 0.5)\<rparr>
                \<and> map_of (phone_profiles reloaded) ''A''
                    = Some \<lparr>temperature = ''7000'', wb_correction = Fin 12.3, tint_correction = Fin (- 0.5)\<rparr>)"
    by (simp only: sel saved)
  with h1 h2 h3 h8 h9 h10 h11 h12 show ?thesis
    unfolding sel
    unfolding cv_def float_repr_def st_def old_def fs2_def Let_def
    by (simp only: case_prod_beta) blast
qed

section \<open>Further properties\<close>

text \<open>
  The text that \<open>on_save_changes\<close> formats for a correction is always accepted by
  \<^verbatim>\<open>float\<close>, and is read as the correction rounded to one decimal: the two calls of
  \<^verbatim>\<open>float\<close> in \<open>on_save_changes\<close> never raise.
\<close>

theorem saved_correction_text_is_read_back:
  "py_float (format_1f v) = Some (one_decimal v)
   \<and> correction_field (format_1f v) = Some (one_decimal v)"
  by (simp add: py_float_format_1f correction_field_format_1f)

text \<open>
  \<^verbatim>\<open>float\<close> accepts the temperature text \<open>inf\<close>. The correction is then infinite, and
  \<open>update_background\<close> ends with the \<^verbatim>\<open>OverflowError\<close> of \<^verbatim>\<open>round\<close>, the background
  left as it was.
\<close>

theorem update_background_infinite_temperature:
  "(let st = \<lparr>calibration_data = [], test_color_var = ''Gray'', phone_file_var = ''phones.txt'',
              phone_profile_var = ''P'', phone_temp_var = ''inf'',
              user_wb_var = Fin 0, user_tint_var = Fin 0, phone_profiles = [],
              root_bg = ''#808080''\<rparr>
    in py_float (strip (phone_temp_var st)) = Some PInf
       \<and> phone_temp_corr (phone_temp_var st) = PInf
       \<and> update_background st = (Some OverflowError, st))"
proof -
  have p: "py_float ''inf'' = Some PInf" and s: "strip ''inf'' = ''inf''"
    and u: "upper ''inf'' \<noteq> ''NA''"
    by (simp_all add: py_float_eval upper_def upper_char_def)
  have c: "phone_temp_corr ''inf'' = PInf"
    by (simp add: phone_temp_corr_def Let_def s u p fsub_def)
  show ?thesis
    by (simp add: Let_def s p c update_background_def compute_color_def test_color_values_def)
qed

end
